theory Spec2Isabelle
  imports Main "HOL-Library.List_Lexorder"
begin

section \<open>The manifest generator \<open>update-models.py\<close>\<close>

text \<open>
  The script scans the directory \<open><script dir>/src/data/models\<close> for \<open>*.csv\<close> entries and
  writes their sorted names as a JSON array into \<open>models.json\<close> in that directory.
  The embedding follows the script line by line; the library functions it calls
  (\<open>os.path.join\<close>, \<open>os.path.basename\<close>, \<open>glob.glob\<close>, \<open>list.sort\<close>, \<open>json.dump\<close>, \<open>open\<close>,
  \<open>print\<close>) are modelled after their CPython implementations on a POSIX platform.
  Every call that can raise has the raise as a branch; what decides the branch is part
  of the state of the world the script runs in.
\<close>

subsection \<open>Python strings\<close>

text \<open>
  A Python \<open>str\<close> is a sequence of code points; a \<open>bytes\<close> object is a sequence of octets.
  Both are lists of naturals here. \<open>str ''abc''\<close> is the Python literal \<open>"abc"\<close>.
\<close>

type_synonym pystr = "nat list"
type_synonym bytes = "nat list"

abbreviation str :: "string \<Rightarrow> pystr" where
  "str s \<equiv> map of_char s"

definition startswith :: "pystr \<Rightarrow> pystr \<Rightarrow> bool" where
  "startswith s p = (take (length p) s = p)"

definition endswith :: "pystr \<Rightarrow> pystr \<Rightarrow> bool" where
  "endswith s p = (length p \<le> length s \<and> drop (length s - length p) s = p)"

text \<open>\<open>s.rfind(c)\<close> for a single character: the highest index of \<open>c\<close> in \<open>s\<close>, or \<open>-1\<close>.\<close>

fun rfind :: "pystr \<Rightarrow> nat \<Rightarrow> int" where
  "rfind [] c = - 1"
| "rfind (x # xs) c =
     (let r = rfind xs c in if 0 \<le> r then r + 1 else if x = c then 0 else - 1)"

text \<open>\<open>s.rstrip(c)\<close> for a single character: drop every trailing \<open>c\<close>.\<close>

definition rstrip :: "pystr \<Rightarrow> nat \<Rightarrow> pystr" where
  "rstrip s c = rev (dropWhile (\<lambda>x. x = c) (rev s))"

text \<open>\<open>str(n)\<close> for a non-negative integer: its decimal digits.\<close>

fun str_of_nat :: "nat \<Rightarrow> pystr" where
  "str_of_nat n = (if n < 10 then [48 + n] else str_of_nat (n div 10) @ [48 + n mod 10])"

declare str_of_nat.simps [simp del]

subsection \<open>\<open>posixpath\<close>\<close>

definition sep :: nat where
  "sep = 47"

text \<open>One step of the loop of \<open>posixpath.join(a, *p)\<close>, and the whole call.\<close>

definition join_step :: "pystr \<Rightarrow> pystr \<Rightarrow> pystr" where
  "join_step path b =
     (if startswith b [sep] then b
      else if path = [] \<or> endswith path [sep] then path @ b
      else path @ [sep] @ b)"

definition path_join :: "pystr \<Rightarrow> pystr list \<Rightarrow> pystr" where
  "path_join a p = foldl join_step a p"

text \<open>\<open>posixpath.split(p)\<close> and \<open>posixpath.basename(p)\<close>.\<close>

definition path_split :: "pystr \<Rightarrow> pystr \<times> pystr" where
  "path_split p =
     (let i = nat (rfind p sep + 1);
          head = take i p;
          tail = drop i p
      in (if head \<noteq> [] \<and> head \<noteq> replicate (length head) sep then rstrip head sep else head,
          tail))"

definition basename :: "pystr \<Rightarrow> pystr" where
  "basename p = (let i = nat (rfind p sep + 1) in drop i p)"

subsection \<open>\<open>fnmatch\<close> and \<open>glob\<close>\<close>

definition star :: nat where
  "star = 42"

definition qmark :: nat where
  "qmark = 63"

definition dot :: nat where
  "dot = 46"

text \<open>
  \<open>fnmatch.fnmatchcase(name, pat)\<close> for patterns built from \<open>*\<close>, \<open>?\<close> and literal characters:
  \<open>*\<close> matches any run of characters, \<open>?\<close> exactly one, and the whole name must match.
  Bracket expressions are left out; the script's only pattern is \<open>*.csv\<close>. On POSIX
  \<open>os.path.normcase\<close> is the identity, so matching is case-sensitive.
\<close>

fun fnmatch :: "pystr \<Rightarrow> pystr \<Rightarrow> bool" where
  "fnmatch [] [] = True"
| "fnmatch (c # cs) [] = False"
| "fnmatch name (p # ps) =
     (if p = star then
        fnmatch name ps \<or> (case name of [] \<Rightarrow> False | c # cs \<Rightarrow> fnmatch cs (p # ps))
      else if p = qmark then
        (case name of [] \<Rightarrow> False | c # cs \<Rightarrow> fnmatch cs ps)
      else
        (case name of [] \<Rightarrow> False | c # cs \<Rightarrow> c = p \<and> fnmatch cs ps))"

text \<open>
  \<open>glob._ishidden(path)\<close> is \<open>path[0] == '.'\<close>. A directory entry is never the empty
  string, so the index is always in range where \<open>glob\<close> calls it.
\<close>

fun ishidden :: "pystr \<Rightarrow> bool" where
  "ishidden [] = False"
| "ishidden (c # cs) = (c = dot)"

text \<open>
  \<open>glob._glob1(dirname, pattern)\<close>: the names of the directory, without the hidden ones
  when the pattern itself is not hidden, filtered by \<open>fnmatch\<close>. \<open>names\<close> is what
  \<open>os.scandir\<close> lists for the directory, in the order it lists them.
\<close>

definition glob1 :: "pystr list \<Rightarrow> pystr \<Rightarrow> pystr list" where
  "glob1 names pattern =
     (let names' = (if \<not> ishidden pattern then filter (\<lambda>x. \<not> ishidden x) names else names)
      in filter (\<lambda>n. fnmatch n pattern) names')"

text \<open>\<open>glob.has_magic(s)\<close>: the string holds one of the characters \<open>*\<close>, \<open>?\<close> and \<open>[\<close>.\<close>

definition has_magic :: "pystr \<Rightarrow> bool" where
  "has_magic s = (\<exists>c \<in> set s. c = star \<or> c = qmark \<or> c = 91)"

subsection \<open>\<open>json.dump\<close>\<close>

unbundle bit_operations_syntax

text \<open>\<open>'{0:04x}'.format(n)\<close>: lower-case hexadecimal, padded with zeros to four digits.\<close>

definition hex_digit :: "nat \<Rightarrow> nat" where
  "hex_digit d = (if d < 10 then 48 + d else 87 + d)"

fun hex_of_nat :: "nat \<Rightarrow> pystr" where
  "hex_of_nat n =
     (if n < 16 then [hex_digit n] else hex_of_nat (n div 16) @ [hex_digit (n mod 16)])"

declare hex_of_nat.simps [simp del]

definition format_04x :: "nat \<Rightarrow> pystr" where
  "format_04x n = (let h = hex_of_nat n in replicate (4 - length h) 48 @ h)"

text \<open>
  \<open>json.encoder.py_encode_basestring_ascii\<close>. \<open>ESCAPE_ASCII\<close> is the regular expression
  \<^verbatim>\<open>([\\"]|[^\ -~])\<close>: a backslash, a double quote, or anything outside the printable
  ASCII range. \<open>ESCAPE_DCT\<close> holds the short escapes (code point 92 is the backslash);
  the entries the module adds for the other control characters are the four-digit
  hexadecimal form that \<open>replace\<close> computes.
\<close>

definition ESCAPE_ASCII :: "nat \<Rightarrow> bool" where
  "ESCAPE_ASCII c = (c = 92 \<or> c = 34 \<or> \<not> (32 \<le> c \<and> c \<le> 126))"

definition ESCAPE_DCT :: "nat \<Rightarrow> pystr option" where
  "ESCAPE_DCT c =
     (if c = 92 then Some [92, 92]
      else if c = 34 then Some [92, 34]
      else if c = 8 then Some (92 # str ''b'')
      else if c = 12 then Some (92 # str ''f'')
      else if c = 10 then Some (92 # str ''n'')
      else if c = 13 then Some (92 # str ''r'')
      else if c = 9 then Some (92 # str ''t'')
      else None)"

definition replace :: "nat \<Rightarrow> pystr" where
  "replace c =
     (case ESCAPE_DCT c of
        Some s \<Rightarrow> s
      | None \<Rightarrow>
          if c < 0x10000 then 92 # str ''u'' @ format_04x c
          else
            let n = c - 0x10000;
                s1 = 0xd800 OR (drop_bit 10 n AND 0x3ff);
                s2 = 0xdc00 OR (n AND 0x3ff)
            in 92 # str ''u'' @ format_04x s1 @ 92 # str ''u'' @ format_04x s2)"

definition py_encode_basestring_ascii :: "pystr \<Rightarrow> pystr" where
  "py_encode_basestring_ascii s =
     [34] @ concat (map (\<lambda>c. if ESCAPE_ASCII c then replace c else [c]) s) @ [34]"

text \<open>
  The loop of \<open>_iterencode_list\<close> over a list of strings: the first chunk is
  \<open>buf + _encoder(value)\<close>, every later one \<open>separator + _encoder(value)\<close>.
\<close>

fun iterencode_items :: "pystr \<Rightarrow> pystr \<Rightarrow> pystr list \<Rightarrow> pystr" where
  "iterencode_items buf separator [] = []"
| "iterencode_items buf separator (v # vs) =
     buf @ py_encode_basestring_ascii v @ iterencode_items separator separator vs"

text \<open>
  \<open>_iterencode_list(lst, _current_indent_level)\<close> for a list of strings, with the
  encoder's \<open>_indent\<close> (a string, or \<open>None\<close>) and \<open>_item_separator\<close>; the chunks it
  yields are concatenated, as writing them to the file one after the other does.
\<close>

definition iterencode_list :: "pystr option \<Rightarrow> pystr \<Rightarrow> pystr list \<Rightarrow> nat \<Rightarrow> pystr" where
  "iterencode_list indent item_separator lst current_indent_level =
     (if lst = [] then str ''[]''
      else
        (case indent of
           Some ind \<Rightarrow>
             let level = current_indent_level + 1;
                 newline_indent = [10] @ concat (replicate level ind);
                 separator = item_separator @ newline_indent;
                 buf = str ''['' @ newline_indent
             in iterencode_items buf separator lst
                  @ [10] @ concat (replicate (level - 1) ind) @ str '']''
         | None \<Rightarrow>
             iterencode_items (str ''['') item_separator lst @ str '']''))"

text \<open>
  \<open>json.dump(obj, fp, indent=n)\<close> for a list of strings: an integer indent becomes that
  many spaces, and with an indent the item separator is a bare comma. The result is the
  text written to \<open>fp\<close>.
\<close>

definition json_dump :: "pystr list \<Rightarrow> nat \<Rightarrow> pystr" where
  "json_dump obj indent = iterencode_list (Some (replicate indent 32)) (str '','') obj 0"

subsection \<open>The file system and the console\<close>

datatype error =
  FileNotFoundError | NotADirectoryError | IsADirectoryError | PermissionError
  | UnicodeEncodeError | OSError

text \<open>
  Text written to a file or to the console is encoded strictly. \<open>open(path, 'w')\<close>
  names no encoding and takes the locale's preferred one; the console has its own.
  Three ASCII-compatible encodings stand for the ones a platform may select.
\<close>

datatype codec = UTF_8 | Latin_1 | ASCII

definition utf8_char :: "nat \<Rightarrow> error + bytes" where
  "utf8_char c =
     (if c < 0x80 then Inr [c]
      else if c < 0x800 then Inr [0xC0 + c div 64, 0x80 + c mod 64]
      else if 0xD800 \<le> c \<and> c \<le> 0xDFFF then Inl UnicodeEncodeError
      else if c < 0x10000 then
        Inr [0xE0 + c div 4096, 0x80 + c div 64 mod 64, 0x80 + c mod 64]
      else
        Inr [0xF0 + c div 262144, 0x80 + c div 4096 mod 64, 0x80 + c div 64 mod 64,
             0x80 + c mod 64])"

definition encode_char :: "codec \<Rightarrow> nat \<Rightarrow> error + bytes" where
  "encode_char enc c =
     (case enc of
        UTF_8 \<Rightarrow> utf8_char c
      | Latin_1 \<Rightarrow> if c < 256 then Inr [c] else Inl UnicodeEncodeError
      | ASCII \<Rightarrow> if c < 128 then Inr [c] else Inl UnicodeEncodeError)"

fun encode :: "codec \<Rightarrow> pystr \<Rightarrow> error + bytes" where
  "encode enc [] = Inr []"
| "encode enc (c # cs) =
     (case encode_char enc c of
        Inl e \<Rightarrow> Inl e
      | Inr b \<Rightarrow> (case encode enc cs of Inl e \<Rightarrow> Inl e | Inr bs \<Rightarrow> Inr (b @ bs)))"

text \<open>
  A directory is the list of its entries in the order \<open>os.scandir\<close> yields them, and
  what the process may do with it: list it, and create files in it. An entry is a
  regular file, with its content and whether the process may open it for writing, or a
  subdirectory.
\<close>

datatype entry = File bytes bool | Subdirectory

record directory =
  entries :: "(pystr \<times> entry) list"
  readable :: bool
  writable :: bool

datatype node = Missing | NotADirectory | Directory directory

text \<open>
  The world the script runs in.
  \<^item> \<open>filesystem w p\<close> is what is at the path \<open>p\<close>.
  \<^item> \<open>glob_dirs w p\<close> is what \<open>glob\<close> yields for a directory pattern \<open>p\<close> with wildcards:
    the paths of the directories whose names match it.
  \<^item> \<open>encoding w\<close> is the locale's preferred encoding, \<open>stdout_encoding w\<close> the console's.
  \<^item> \<open>stdout_fault w n\<close> says that writing the line after the first \<open>n\<close> lines to the
    console fails; \<open>open_fault w\<close> that opening a file for writing fails for a reason the
    directory does not show; \<open>write_fault w = Some k\<close> that writing to a file fails after
    \<open>k\<close> bytes; \<open>flush_fault w\<close> that the console cannot be flushed when the interpreter
    exits.
  \<^item> \<open>stdout w\<close> is the lines printed so far.
\<close>

record world =
  filesystem :: "pystr \<Rightarrow> node"
  glob_dirs :: "pystr \<Rightarrow> pystr list"
  encoding :: codec
  stdout_encoding :: codec
  stdout_fault :: "nat \<Rightarrow> bool"
  open_fault :: bool
  write_fault :: "nat option"
  flush_fault :: bool
  stdout :: "pystr list"

text \<open>
  The outcome of a call: the value it returns or the exception it raises, and the world
  after it.
\<close>

type_synonym 'a outcome = "(error + 'a) \<times> world"

text \<open>\<open>os.path.exists(p)\<close>.\<close>

definition path_exists :: "world \<Rightarrow> pystr \<Rightarrow> bool" where
  "path_exists w p = (filesystem w p \<noteq> Missing)"

text \<open>
  The names \<open>glob\<close> gets from \<open>os.scandir\<close> for a directory path; \<open>glob\<close> swallows the
  \<open>OSError\<close> of listing what is not a directory or may not be listed and goes on with no
  names.
\<close>

definition scandir_names :: "world \<Rightarrow> pystr \<Rightarrow> pystr list" where
  "scandir_names w p =
     (case filesystem w p of
        Directory d \<Rightarrow> if readable d then map fst (entries d) else []
      | NotADirectory \<Rightarrow> []
      | Missing \<Rightarrow> [])"

text \<open>
  \<open>glob.glob(pathname)\<close> for a pathname with a directory part and a wildcard in its last
  component, which is what the script passes. The pathname is split. When the directory
  part has a wildcard itself, it is expanded to the directories that match it, otherwise
  it is taken as it is. The last component is matched against the names in each of these
  directories, and every match is joined to its directory.
\<close>

definition glob_glob :: "world \<Rightarrow> pystr \<Rightarrow> pystr list" where
  "glob_glob w pathname =
     (case path_split pathname of
        (dirname, pattern) \<Rightarrow>
          let dirs = (if dirname \<noteq> pathname \<and> has_magic dirname then glob_dirs w dirname
                      else [dirname])
          in concat (map (\<lambda>dirname.
                 map (\<lambda>name. path_join dirname [name])
                   (glob1 (scandir_names w dirname) pattern)) dirs))"

text \<open>Replacing or adding an entry of a directory, and the world with that directory.\<close>

fun write_entry :: "(pystr \<times> entry) list \<Rightarrow> pystr \<Rightarrow> entry \<Rightarrow> (pystr \<times> entry) list" where
  "write_entry [] name e = [(name, e)]"
| "write_entry ((n, c) # es) name e =
     (if n = name then (n, e) # es else (n, c) # write_entry es name e)"

definition put_entry :: "world \<Rightarrow> pystr \<Rightarrow> directory \<Rightarrow> pystr \<Rightarrow> entry \<Rightarrow> world" where
  "put_entry w dirname d name e =
     w\<lparr>filesystem := (filesystem w)
          (dirname := Directory (d\<lparr>entries := write_entry (entries d) name e\<rparr>))\<rparr>"

text \<open>
  \<open>open(path, 'w')\<close>: the file is created if it is not there, which needs a directory
  the process may write to, and truncated if it is, which needs a file the process may
  write to.
\<close>

definition open_w :: "world \<Rightarrow> pystr \<Rightarrow> unit outcome" where
  "open_w w path =
     (case path_split path of
        (dirname, name) \<Rightarrow>
          if open_fault w then (Inl OSError, w)
          else
            (case filesystem w dirname of
               Missing \<Rightarrow> (Inl FileNotFoundError, w)
             | NotADirectory \<Rightarrow> (Inl NotADirectoryError, w)
             | Directory d \<Rightarrow>
                 (case map_of (entries d) name of
                    Some Subdirectory \<Rightarrow> (Inl IsADirectoryError, w)
                  | Some (File content may_write) \<Rightarrow>
                      if may_write then (Inr (), put_entry w dirname d name (File [] may_write))
                      else (Inl PermissionError, w)
                  | None \<Rightarrow>
                      if writable d then (Inr (), put_entry w dirname d name (File [] True))
                      else (Inl PermissionError, w))))"

text \<open>
  Writing the encoded text to the open file and closing it: the bytes become the
  content of the file, or the first \<open>k\<close> of them when the write fails after \<open>k\<close> bytes.
\<close>

definition set_content :: "world \<Rightarrow> pystr \<Rightarrow> bytes \<Rightarrow> world" where
  "set_content w path bs =
     (case path_split path of
        (dirname, name) \<Rightarrow>
          (case filesystem w dirname of
             Directory d \<Rightarrow>
               (case map_of (entries d) name of
                  Some (File content may_write) \<Rightarrow> put_entry w dirname d name (File bs may_write)
                | Some Subdirectory \<Rightarrow> w
                | None \<Rightarrow> w)
           | NotADirectory \<Rightarrow> w
           | Missing \<Rightarrow> w))"

definition write_close :: "world \<Rightarrow> pystr \<Rightarrow> bytes \<Rightarrow> unit outcome" where
  "write_close w path bs =
     (case write_fault w of
        Some k \<Rightarrow> (Inl OSError, set_content w path (take k bs))
      | None \<Rightarrow> (Inr (), set_content w path bs))"

text \<open>
  \<open>print(text)\<close>: the text and the line feed are encoded for the console, which raises
  \<open>UnicodeEncodeError\<close> when the console's encoding has no bytes for a character, and
  written, which raises \<open>OSError\<close> when the console is broken. Nothing is printed when
  it raises.
\<close>

definition print :: "world \<Rightarrow> pystr \<Rightarrow> unit outcome" where
  "print w text =
     (case encode (stdout_encoding w) (text @ [10]) of
        Inl e \<Rightarrow> (Inl e, w)
      | Inr bs \<Rightarrow>
          if stdout_fault w (length (stdout w)) then (Inl OSError, w)
          else (Inr (), w\<lparr>stdout := stdout w @ [text]\<rparr>))"

subsection \<open>\<open>update_models_json\<close>\<close>

text \<open>
  Lines 11 and 12: \<open>script_dir\<close> is the directory of the script file, a parameter of the
  model, and \<open>models_dir\<close> is computed from it.
\<close>

definition models_dir :: "pystr \<Rightarrow> pystr" where
  "models_dir script_dir = path_join script_dir [str ''src'', str ''data'', str ''models'']"

text \<open>
  Lines 24 to 27, the loop over the paths that \<open>glob\<close> returned: the base name of each
  path is appended to \<open>csv_files\<close> unless it is \<open>models.json\<close>.
\<close>

fun collect :: "pystr list \<Rightarrow> pystr list \<Rightarrow> pystr list" where
  "collect [] csv_files = csv_files"
| "collect (filepath # rest) csv_files =
     (let filename = basename filepath
      in if filename \<noteq> str ''models.json'' then collect rest (csv_files @ [filename])
         else collect rest csv_files)"

text \<open>
  Lines 21 to 30: the list that is handed to \<open>json.dump\<close>, from the world and the path of
  the models directory. \<open>list.sort\<close> compares strings code point by code point, which is
  the lexicographic order of the lists of code points.
\<close>

definition csv_files :: "world \<Rightarrow> pystr \<Rightarrow> pystr list" where
  "csv_files w mdir =
     (let csv_pattern = path_join mdir [str ''*.csv''];
          found = collect (glob_glob w csv_pattern) []
      in sort found)"

text \<open>
  Lines 35 and 36: the manifest is opened, which truncates it, the list is serialised
  and encoded, and the bytes are written. An exception raised after the file has been
  opened leaves it truncated.
\<close>

definition write_manifest :: "world \<Rightarrow> pystr \<Rightarrow> pystr list \<Rightarrow> unit outcome" where
  "write_manifest w json_file files =
     (case open_w w json_file of
        (Inl e, w1) \<Rightarrow> (Inl e, w1)
      | (Inr u, w1) \<Rightarrow>
          (case encode (encoding w1) (json_dump files 2) of
             Inl e \<Rightarrow> (Inl e, w1)
           | Inr bs \<Rightarrow> write_close w1 json_file bs))"

text \<open>Lines 38 to 43: the report printed after the manifest has been written.\<close>

fun print_each :: "world \<Rightarrow> pystr list \<Rightarrow> unit outcome" where
  "print_each w [] = (Inr (), w)"
| "print_each w (filename # rest) =
     (case print w (str ''  - '' @ filename) of
        (Inl e, w1) \<Rightarrow> (Inl e, w1)
      | (Inr u, w1) \<Rightarrow> print_each w1 rest)"

definition report :: "world \<Rightarrow> pystr \<Rightarrow> pystr list \<Rightarrow> bool outcome" where
  "report w json_file files =
     (case print w (str ''Generated '' @ json_file @ str '' with ''
                      @ str_of_nat (length files) @ str '' CSV files:'') of
        (Inl e, w1) \<Rightarrow> (Inl e, w1)
      | (Inr u, w1) \<Rightarrow>
          (case print_each w1 files of
             (Inl e, w2) \<Rightarrow> (Inl e, w2)
           | (Inr u, w2) \<Rightarrow>
               (case print w2 (10 # str ''Models.json has been updated! Your web app will now automatically detect all CSV files.'') of
                  (Inl e, w3) \<Rightarrow> (Inl e, w3)
                | (Inr u, w3) \<Rightarrow> (Inr True, w3))))"

text \<open>
  The whole function. The outcome is the value it returns, or the exception that leaves
  it, together with the world after the call.
\<close>

definition update_models_json :: "pystr \<Rightarrow> world \<Rightarrow> bool outcome" where
  "update_models_json script_dir w =
     (let mdir = models_dir script_dir in
      if \<not> path_exists w mdir then
        (case print w (str ''Error: Models directory not found at '' @ mdir) of
           (Inl e, w1) \<Rightarrow> (Inl e, w1)
         | (Inr u, w1) \<Rightarrow> (Inr False, w1))
      else
        (case print w (str ''Scanning for CSV files in '' @ mdir @ str ''...'') of
           (Inl e, w1) \<Rightarrow> (Inl e, w1)
         | (Inr u, w1) \<Rightarrow>
             let files = csv_files w1 mdir;
                 json_file = path_join mdir [str ''models.json'']
             in (case write_manifest w1 json_file files of
                   (Inl e, w2) \<Rightarrow> (Inl e, w2)
                 | (Inr u, w2) \<Rightarrow> report w2 json_file files)))"


subsection \<open>Notions the properties are stated with\<close>

text \<open>The content of the manifest file in the models directory, if the file is there.\<close>

definition manifest :: "world \<Rightarrow> pystr \<Rightarrow> bytes option" where
  "manifest w mdir =
     (case filesystem w mdir of
        Directory d \<Rightarrow>
          (case map_of (entries d) (str ''models.json'') of
             Some (File content may_write) \<Rightarrow> Some content
           | Some Subdirectory \<Rightarrow> None
           | None \<Rightarrow> None)
      | NotADirectory \<Rightarrow> None
      | Missing \<Rightarrow> None)"

text \<open>
  What every directory listing satisfies: no name twice, no empty name, no path
  separator inside a name.
\<close>

definition wf_dir :: "directory \<Rightarrow> bool" where
  "wf_dir d =
     (distinct (map fst (entries d))
      \<and> (\<forall>n \<in> set (map fst (entries d)). n \<noteq> [] \<and> sep \<notin> set n))"

text \<open>
  Lexicographic order by code point, written out: the first position where two strings
  differ decides, and a proper prefix comes first. Upper and lower case letters are
  different code points.
\<close>

fun cp_le :: "pystr \<Rightarrow> pystr \<Rightarrow> bool" where
  "cp_le [] ys = True"
| "cp_le (x # xs) [] = False"
| "cp_le (x # xs) (y # ys) = (x < y \<or> (x = y \<and> cp_le xs ys))"

text \<open>
  JSON strings, after RFC 8259. A string denotes a sequence of UTF-16 code units.
  \<open>utf16 s\<close> is the sequence for a Python string: a code point below \<open>0x10000\<close> is one
  unit, a higher one a surrogate pair. (For the code points up to \<open>0x10FFFF\<close>, the only
  ones a Python string holds, the high ten bits are below 1024 as they stand.)
\<close>

definition utf16_units :: "nat \<Rightarrow> nat list" where
  "utf16_units c =
     (if c < 0x10000 then [c]
      else [0xD800 + (c - 0x10000) div 1024 mod 1024, 0xDC00 + (c - 0x10000) mod 1024])"

definition utf16 :: "pystr \<Rightarrow> nat list" where
  "utf16 s = concat (map utf16_units s)"

text \<open>The value of a hexadecimal digit, in either case.\<close>

definition hex_value :: "nat \<Rightarrow> nat option" where
  "hex_value c =
     (if 48 \<le> c \<and> c \<le> 57 then Some (c - 48)
      else if 97 \<le> c \<and> c \<le> 102 then Some (c - 87)
      else if 65 \<le> c \<and> c \<le> 70 then Some (c - 55)
      else None)"

text \<open>
  The two-character escapes of a JSON string: the character after the backslash and the
  code unit it stands for.
\<close>

definition simple_escape :: "nat \<Rightarrow> nat option" where
  "simple_escape e =
     (if e = 34 then Some 34
      else if e = 92 then Some 92
      else if e = 47 then Some 47
      else if e = 98 then Some 8
      else if e = 102 then Some 12
      else if e = 110 then Some 10
      else if e = 114 then Some 13
      else if e = 116 then Some 9
      else None)"

text \<open>
  The code units that the characters between the quotes of a JSON string denote, if
  they are well formed: a backslash starts an escape, either one of the two-character
  ones or \<open>u\<close> and four hexadecimal digits; a quote or a control character may not stand
  unescaped; any other character stands for itself.
\<close>

text \<open>The number that four hexadecimal digits write, if they are four such digits.\<close>

definition hex4 :: "pystr \<Rightarrow> nat option" where
  "hex4 hs =
     (if length hs = 4 \<and> list_all (\<lambda>h. hex_value h \<noteq> None) hs
      then Some (foldl (\<lambda>acc h. 16 * acc + the (hex_value h)) 0 hs)
      else None)"

function json_chars :: "pystr \<Rightarrow> nat list option" where
  "json_chars [] = Some []"
| "json_chars (c # cs) =
     (if c = 92 then
        (if cs = [] then None
         else if hd cs = 117 then
           (case hex4 (take 4 (tl cs)) of
              Some u \<Rightarrow> map_option (\<lambda>us. u # us) (json_chars (drop 4 (tl cs)))
            | None \<Rightarrow> None)
         else
           (case simple_escape (hd cs) of
              Some u \<Rightarrow> map_option (\<lambda>us. u # us) (json_chars (tl cs))
            | None \<Rightarrow> None))
      else if c = 34 \<or> c < 32 then None
      else map_option (\<lambda>us. utf16_units c @ us) (json_chars cs))"
  by pat_completeness auto
termination
  by (relation "measure length") (auto simp: less_Suc_eq_le intro: le_trans [OF diff_le_self])

text \<open>The code units that a JSON string literal denotes: the quotes and what is between.\<close>

definition json_string_units :: "pystr \<Rightarrow> nat list option" where
  "json_string_units lit =
     (case lit of
        [] \<Rightarrow> None
      | q # rest \<Rightarrow>
          if q = 34 \<and> rest \<noteq> [] \<and> last rest = 34 then json_chars (butlast rest) else None)"

text \<open>
  A JSON array pretty-printed with an indentation of two spaces, from the texts of its
  elements: an empty array is \<open>[]\<close>; otherwise the opening bracket, every element on a
  line of its own behind two spaces, a comma after each but the last, and the closing
  bracket on its own line.
\<close>

fun join_with :: "pystr \<Rightarrow> pystr list \<Rightarrow> pystr" where
  "join_with s [] = []"
| "join_with s [x] = x"
| "join_with s (x # y # ys) = x @ s @ join_with s (y # ys)"

definition pretty_array_2 :: "pystr list \<Rightarrow> pystr" where
  "pretty_array_2 elements =
     (if elements = [] then str ''[]''
      else str ''['' @ [10]
           @ join_with (str '','' @ [10]) (map (\<lambda>x. str ''  '' @ x) elements)
           @ [10] @ str '']'')"

text \<open>The loop of lines 24 to 27 without the test of line 26.\<close>

fun collect_unguarded :: "pystr list \<Rightarrow> pystr list \<Rightarrow> pystr list" where
  "collect_unguarded [] found = found"
| "collect_unguarded (filepath # rest) found =
     collect_unguarded rest (found @ [basename filepath])"

text \<open>
  The conditions under which no call of the script raises: the console takes every line
  the script prints, and the manifest can be opened and written.
\<close>

definition encodable :: "codec \<Rightarrow> pystr \<Rightarrow> bool" where
  "encodable enc s = (case encode enc s of Inl e \<Rightarrow> False | Inr b \<Rightarrow> True)"

definition console_accepts :: "world \<Rightarrow> pystr \<Rightarrow> bool" where
  "console_accepts w script_dir =
     ((\<forall>n. \<not> stdout_fault w n)
      \<and> encodable (stdout_encoding w) script_dir
      \<and> (\<forall>f \<in> set (csv_files w (models_dir script_dir)). encodable (stdout_encoding w) f))"

definition can_write_manifest :: "world \<Rightarrow> pystr \<Rightarrow> bool" where
  "can_write_manifest w mdir =
     (\<not> open_fault w \<and> write_fault w = None
      \<and> (case filesystem w mdir of
            Directory d \<Rightarrow>
              (case map_of (entries d) (str ''models.json'') of
                 Some (File content may_write) \<Rightarrow> may_write
               | Some Subdirectory \<Rightarrow> False
               | None \<Rightarrow> writable d)
          | NotADirectory \<Rightarrow> False
          | Missing \<Rightarrow> False))"

text \<open>Every directory of the file system has a well-formed listing.\<close>

definition wf_world :: "world \<Rightarrow> bool" where
  "wf_world w = (\<forall>p d. filesystem w p = Directory d \<longrightarrow> wf_dir d)"

text \<open>
  Worlds the theorems are instantiated at. A plain world has a console and a disk that
  work and UTF-8 throughout; a plain directory can be listed and written and holds
  regular files that can be written.
\<close>

definition plain_world :: "(pystr \<Rightarrow> node) \<Rightarrow> world" where
  "plain_world fs =
     \<lparr>filesystem = fs, glob_dirs = (\<lambda>p. []), encoding = UTF_8, stdout_encoding = UTF_8,
      stdout_fault = (\<lambda>n. False), open_fault = False, write_fault = None,
      flush_fault = False, stdout = []\<rparr>"

definition plain_dir :: "(pystr \<times> bytes) list \<Rightarrow> directory" where
  "plain_dir files =
     \<lparr>entries = map (\<lambda>(n, c). (n, File c True)) files, readable = True, writable = True\<rparr>"

definition only_at :: "pystr \<Rightarrow> directory \<Rightarrow> pystr \<Rightarrow> node" where
  "only_at p d = (\<lambda>q. if q = p then Directory d else Missing)"

definition app_models :: pystr where
  "app_models = str ''/app/src/data/models''"

definition example_world :: world where
  "example_world =
     plain_world (only_at app_models
       (plain_dir [(str ''a.csv'', [49]), (str ''c.csv'', []), (str ''b.csv'', [50, 10]),
                   (str ''models.json'', str ''stale'')]))"

definition hidden_world :: world where
  "hidden_world =
     plain_world (only_at app_models
       (plain_dir [(str ''.hidden.csv'', []), (str ''a.csv'', [])]))"





text \<open>A directory with two models, and the same directory when it may not be listed.\<close>

definition models_world :: world where
  "models_world =
     plain_world (only_at app_models
       (plain_dir [(str ''model1.csv'', []), (str ''Model2.csv'', [])]))"

definition unlisted_models_world :: world where
  "unlisted_models_world =
     plain_world (only_at app_models
       ((plain_dir [(str ''model1.csv'', []), (str ''Model2.csv'', [])])\<lparr>readable := False\<rparr>))"

text \<open>
  The example directory when it may not be listed, and a directory with the same
  \<open>.csv\<close> names as the example directory, listed in another order, with other contents,
  another file beside them and no manifest yet.
\<close>

definition unlisted_example_world :: world where
  "unlisted_example_world =
     plain_world (only_at app_models
       ((plain_dir [(str ''a.csv'', [49]), (str ''c.csv'', []), (str ''b.csv'', [50, 10]),
                    (str ''models.json'', str ''stale'')])\<lparr>readable := False\<rparr>))"

definition reordered_world :: world where
  "reordered_world =
     plain_world (only_at app_models
       (plain_dir [(str ''b.csv'', []), (str ''notes.txt'', [104, 105]), (str ''a.csv'', []),
                   (str ''c.csv'', [51])]))"

section \<open>Paths\<close>

lemma rfind_ge: "- 1 \<le> rfind xs c"
  by (induction xs) (auto simp: Let_def)

lemma rfind_lt: "rfind xs c < int (length xs)"
  by (induction xs) (auto simp: Let_def)

lemma rfind_nonneg_iff: "0 \<le> rfind xs c \<longleftrightarrow> c \<in> set xs"
  by (induction xs) (auto simp: Let_def)

lemma rfind_absent: "c \<notin> set xs \<Longrightarrow> rfind xs c = - 1"
  using rfind_nonneg_iff [of xs c] rfind_ge [of xs c] by linarith

lemma rfind_append_absent: "c \<notin> set t \<Longrightarrow> rfind (q @ t) c = rfind q c"
  by (induction q) (auto simp: Let_def rfind_absent)

lemma rfind_append_present: "c \<in> set t \<Longrightarrow> rfind (q @ t) c = int (length q) + rfind t c"
  by (induction q) (auto simp: Let_def rfind_nonneg_iff)

lemma basename_sep_free: "sep \<notin> set n \<Longrightarrow> basename n = n"
  by (simp add: basename_def rfind_absent)

lemma basename_append_present: "sep \<in> set t \<Longrightarrow> basename (q @ t) = basename t"
proof -
  assume a: "sep \<in> set t"
  have "0 \<le> rfind t sep" using a by (simp add: rfind_nonneg_iff)
  then have "nat (int (length q) + rfind t sep + 1) = length q + nat (rfind t sep + 1)"
    by linarith
  then show ?thesis using a by (simp add: basename_def rfind_append_present)
qed

lemma basename_snoc_sep: "basename (p @ [sep]) = []"
proof -
  have "rfind (p @ [sep]) sep = int (length p)"
    by (simp add: rfind_append_present)
  then show ?thesis by (simp add: basename_def)
qed

lemma basename_append_absent: "sep \<notin> set t \<Longrightarrow> basename (q @ t) = basename q @ t"
proof -
  assume a: "sep \<notin> set t"
  have "nat (rfind q sep + 1) \<le> length q" using rfind_lt [of q sep] by linarith
  then show ?thesis using a by (simp add: basename_def rfind_append_absent)
qed

lemma endswith_iff: "endswith s p \<longleftrightarrow> (\<exists>q. s = q @ p)"
proof
  assume "endswith s p"
  then have "s = take (length s - length p) s @ p"
    by (metis append_take_drop_id endswith_def)
  then show "\<exists>q. s = q @ p" ..
next
  assume "\<exists>q. s = q @ p"
  then show "endswith s p" by (auto simp: endswith_def)
qed

lemma basename_join_step: "basename (join_step d n) = basename n"
proof (cases "sep \<in> set n")
  case True
  have a: "basename (d @ n) = basename n" and b: "basename ((d @ [sep]) @ n) = basename n"
    using True by (rule basename_append_present)+
  show ?thesis using a b by (simp add: join_step_def)
next
  case False
  then have ns: "\<not> startswith n [sep]"
    by (cases n) (auto simp: startswith_def)
  show ?thesis
  proof (cases "d = [] \<or> endswith d [sep]")
    case True
    then show ?thesis using ns False
      by (auto simp: join_step_def endswith_iff basename_append_absent basename_snoc_sep basename_sep_free)
  next
    case False
    have "basename ((d @ [sep]) @ n) = basename (d @ [sep]) @ n"
      using \<open>sep \<notin> set n\<close> by (rule basename_append_absent)
    then show ?thesis using ns False \<open>sep \<notin> set n\<close>
      by (simp add: join_step_def basename_snoc_sep basename_sep_free)
  qed
qed

section \<open>Matching and scanning\<close>

lemma fnmatch_literal:
  "star \<notin> set ps \<Longrightarrow> qmark \<notin> set ps \<Longrightarrow> fnmatch n ps \<longleftrightarrow> n = ps"
proof (induction ps arbitrary: n)
  case Nil
  then show ?case by (cases n) auto
next
  case (Cons p ps)
  then show ?case by (cases n) auto
qed

lemma endswith_Cons: "endswith (c # cs) ps \<longleftrightarrow> c # cs = ps \<or> endswith cs ps"
  unfolding endswith_iff
proof
  assume "\<exists>q. c # cs = q @ ps"
  then obtain q where q: "c # cs = q @ ps" ..
  show "c # cs = ps \<or> (\<exists>q. cs = q @ ps)"
  proof (cases q)
    case Nil
    with q show ?thesis by simp
  next
    case (Cons a q')
    with q have "cs = q' @ ps" by simp
    then show ?thesis by blast
  qed
next
  assume "c # cs = ps \<or> (\<exists>q. cs = q @ ps)"
  then show "\<exists>q. c # cs = q @ ps"
  proof
    assume "c # cs = ps"
    then have "c # cs = [] @ ps" by simp
    then show ?thesis ..
  next
    assume "\<exists>q. cs = q @ ps"
    then obtain q where "cs = q @ ps" ..
    then have "c # cs = (c # q) @ ps" by simp
    then show ?thesis ..
  qed
qed

lemma fnmatch_star:
  assumes "star \<notin> set ps" and "qmark \<notin> set ps"
  shows "fnmatch n (star # ps) \<longleftrightarrow> endswith n ps"
proof (induction n)
  case Nil
  show ?case using assms by (auto simp: fnmatch_literal endswith_def)
next
  case (Cons c cs)
  have "fnmatch (c # cs) (star # ps) \<longleftrightarrow> fnmatch (c # cs) ps \<or> fnmatch cs (star # ps)"
    by simp
  also have "\<dots> \<longleftrightarrow> c # cs = ps \<or> endswith cs ps"
    using Cons.IH fnmatch_literal [OF assms, of "c # cs"] by simp
  finally show ?case by (simp only: endswith_Cons)
qed

lemma fnmatch_csv: "fnmatch n (str ''*.csv'') \<longleftrightarrow> endswith n (str ''.csv'')"
proof -
  have "fnmatch n (star # str ''.csv'') \<longleftrightarrow> endswith n (str ''.csv'')"
    by (rule fnmatch_star) (simp_all add: star_def qmark_def)
  then show ?thesis by (simp add: star_def)
qed

lemma glob1_csv:
  "glob1 names (str ''*.csv'') = filter (\<lambda>n. \<not> ishidden n \<and> endswith n (str ''.csv'')) names"
proof -
  have "\<not> ishidden (str ''*.csv'')" by (simp add: dot_def)
  then have "glob1 names (str ''*.csv'') =
      filter (\<lambda>n. fnmatch n (str ''*.csv'')) (filter (\<lambda>x. \<not> ishidden x) names)"
    unfolding glob1_def Let_def by (rule if_P [THEN arg_cong])
  also have "\<dots> = filter (\<lambda>n. \<not> ishidden n \<and> fnmatch n (str ''*.csv'')) names"
    unfolding filter_filter by (rule filter_cong) auto
  finally show ?thesis unfolding fnmatch_csv .
qed

lemma models_dir_ends: "\<exists>y. models_dir script_dir = y @ str ''models''"
proof -
  have "\<exists>y. join_step p (str ''models'') = y @ str ''models''" for p
    by (rule exI [of _ "if p = [] \<or> endswith p [sep] then p else p @ [sep]"])
       (simp add: join_step_def startswith_def sep_def)
  then show ?thesis by (simp add: models_dir_def path_join_def)
qed

lemma join_under_models:
  assumes "\<not> startswith b [sep]"
  shows "path_join (models_dir script_dir) [b] = models_dir script_dir @ [sep] @ b"
proof -
  obtain y where y: "models_dir script_dir = y @ str ''models''"
    using models_dir_ends by blast
  have "\<not> endswith (y @ str ''models'') [sep]"
    by (simp add: endswith_def sep_def)
  then show ?thesis using assms y by (simp add: path_join_def join_step_def)
qed

lemma rstrip_models: "rstrip ((y @ str ''models'') @ [sep]) sep = y @ str ''models''"
  by (simp add: rstrip_def sep_def)

lemma path_split_under_models:
  assumes "sep \<notin> set b"
  shows "path_split (models_dir script_dir @ [sep] @ b) = (models_dir script_dir, b)"
proof -
  obtain y where y: "models_dir script_dir = y @ str ''models''"
    using models_dir_ends by blast
  let ?m = "y @ str ''models''"
  have r: "rfind ((?m @ [sep]) @ b) sep = int (length ?m)"
    using rfind_append_absent [OF assms, of "?m @ [sep]"] rfind_append_present [of sep "[sep]" ?m]
    by simp
  have i: "nat (rfind ((?m @ [sep]) @ b) sep + 1) = length (?m @ [sep])"
    by (simp only: r) simp
  have t: "take (length (?m @ [sep])) ((?m @ [sep]) @ b) = ?m @ [sep]"
    and d: "drop (length (?m @ [sep])) ((?m @ [sep]) @ b) = b"
    by (simp_all only: append_eq_conv_conj [symmetric] take_all drop_all append_take_drop_id take_append drop_append) simp_all
  have ne: "?m @ [sep] \<noteq> replicate (length (?m @ [sep])) sep"
  proof
    assume "?m @ [sep] = replicate (length (?m @ [sep])) sep"
    then have "set (?m @ [sep]) \<subseteq> {sep}" by (metis set_replicate_conv_if empty_subsetI subset_refl)
    then show False by (simp add: sep_def)
  qed
  have "path_split ((?m @ [sep]) @ b) = (?m, b)"
    unfolding path_split_def Let_def i t d using ne rstrip_models [of y] by simp
  then show ?thesis by (simp add: y)
qed

lemma collect_eq:
  "collect ps acc = acc @ filter (\<lambda>f. f \<noteq> str ''models.json'') (map basename ps)"
  by (induction ps arbitrary: acc) (simp_all add: Let_def)

lemma basename_path_join: "basename (path_join d [n]) = basename n"
  by (simp add: path_join_def basename_join_step)

lemma csv_not_manifest: "endswith n (str ''.csv'') \<Longrightarrow> n \<noteq> str ''models.json''"
  by (auto simp: endswith_def)


lemma pattern_split:
  "path_split (path_join (models_dir script_dir) [str ''*.csv''])
     = (models_dir script_dir, str ''*.csv'')"
proof -
  have a: "\<not> startswith (str ''*.csv'') [sep]" by (simp add: startswith_def sep_def)
  have b: "sep \<notin> set (str ''*.csv'')" by (simp add: sep_def)
  show ?thesis unfolding join_under_models [OF a] by (rule path_split_under_models [OF b])
qed

lemma manifest_split:
  "path_split (path_join (models_dir script_dir) [str ''models.json''])
     = (models_dir script_dir, str ''models.json'')"
proof -
  have a: "\<not> startswith (str ''models.json'') [sep]" by (simp add: startswith_def sep_def)
  have b: "sep \<notin> set (str ''models.json'')" by (simp add: sep_def)
  show ?thesis unfolding join_under_models [OF a] by (rule path_split_under_models [OF b])
qed

lemma glob_glob_plain:
  assumes "\<not> has_magic (models_dir script_dir)"
  shows "glob_glob w (path_join (models_dir script_dir) [str ''*.csv''])
     = map (\<lambda>name. path_join (models_dir script_dir) [name])
         (filter (\<lambda>n. \<not> ishidden n \<and> endswith n (str ''.csv''))
            (scandir_names w (models_dir script_dir)))"
  unfolding glob_glob_def pattern_split prod.case Let_def glob1_csv using assms by simp

lemma glob_glob_elements:
  assumes "p \<in> set (glob_glob w (path_join (models_dir script_dir) [str ''*.csv'']))"
  shows "\<exists>d n. p = path_join d [n] \<and> \<not> ishidden n \<and> endswith n (str ''.csv'')
           \<and> n \<in> set (scandir_names w d)"
  using assms unfolding glob_glob_def pattern_split prod.case Let_def glob1_csv
  by (auto simp del: map_map)

lemma csv_files_sorted: "sorted (csv_files w mdir)"
  unfolding csv_files_def Let_def by (rule sorted_sort)

lemma set_csv_files:
  "set (csv_files w mdir)
     = {f \<in> basename ` set (glob_glob w (path_join mdir [str ''*.csv''])). f \<noteq> str ''models.json''}"
  unfolding csv_files_def Let_def set_sort collect_eq by auto

lemma csv_files_plain:
  assumes "\<not> has_magic (models_dir script_dir)"
  shows "csv_files w (models_dir script_dir) =
     sort (filter (\<lambda>f. f \<noteq> str ''models.json'')
       (map basename (filter (\<lambda>n. \<not> ishidden n \<and> endswith n (str ''.csv''))
          (scandir_names w (models_dir script_dir)))))"
  unfolding csv_files_def Let_def glob_glob_plain [OF assms] collect_eq
  by (simp add: comp_def basename_path_join)

lemma csv_files_sep_free:
  assumes "\<not> has_magic (models_dir script_dir)"
    and "\<forall>n \<in> set (scandir_names w (models_dir script_dir)). sep \<notin> set n"
  shows "csv_files w (models_dir script_dir) =
     sort (filter (\<lambda>n. \<not> ishidden n \<and> endswith n (str ''.csv''))
        (scandir_names w (models_dir script_dir)))"
proof -
  let ?g = "filter (\<lambda>n. \<not> ishidden n \<and> endswith n (str ''.csv''))
        (scandir_names w (models_dir script_dir))"
  have "map basename ?g = ?g"
    using assms(2) by (intro map_idI) (simp add: basename_sep_free)
  moreover have "filter (\<lambda>f. f \<noteq> str ''models.json'') ?g = ?g"
  proof (rule filter_True, rule ballI)
    fix x
    assume "x \<in> set ?g"
    then have "endswith x (str ''.csv'')" unfolding set_filter by blast
    then show "x \<noteq> str ''models.json''" by (rule csv_not_manifest)
  qed
  ultimately show ?thesis unfolding csv_files_plain [OF assms(1)] by (simp only:)
qed

lemma encode_ascii: "\<forall>c \<in> set t. c < 128 \<Longrightarrow> encode enc t = Inr t"
  by (induction t) (auto simp: encode_char_def utf8_char_def split: codec.splits)

lemma hex_digit_ascii: "d < 16 \<Longrightarrow> hex_digit d < 128"
  by (simp add: hex_digit_def)

lemma hex_of_nat_ascii: "\<forall>c \<in> set (hex_of_nat n). c < 128"
proof (induction n rule: hex_of_nat.induct)
  case (1 n)
  show ?case
  proof (cases "n < 16")
    case True
    then show ?thesis by (simp add: hex_of_nat.simps [of n] hex_digit_ascii)
  next
    case False
    have "hex_digit (n mod 16) < 128" by (rule hex_digit_ascii) simp
    then show ?thesis using False 1 by (simp add: hex_of_nat.simps [of n])
  qed
qed

lemma format_04x_ascii: "\<forall>c \<in> set (format_04x n). c < 128"
  using hex_of_nat_ascii [of n] by (auto simp: format_04x_def Let_def)

lemma replace_ascii: "\<forall>c \<in> set (replace x). c < 128"
proof (cases "ESCAPE_DCT x")
  case None
  then show ?thesis
    using format_04x_ascii by (auto simp: replace_def Let_def)
next
  case (Some s)
  then have "\<forall>c \<in> set s. c < 128"
    by (auto simp: ESCAPE_DCT_def split: if_splits)
  then show ?thesis using Some by (simp add: replace_def)
qed

lemma py_encode_basestring_ascii_ascii: "\<forall>c \<in> set (py_encode_basestring_ascii s). c < 128"
  using replace_ascii by (auto simp: py_encode_basestring_ascii_def ESCAPE_ASCII_def)

lemma iterencode_items_ascii:
  "\<forall>c \<in> set buf. c < 128 \<Longrightarrow> \<forall>c \<in> set separator. c < 128 \<Longrightarrow>
   \<forall>c \<in> set (iterencode_items buf separator lst). c < 128"
  using py_encode_basestring_ascii_ascii
  by (induction lst arbitrary: buf) auto

lemma json_dump_ascii: "\<forall>c \<in> set (json_dump lst indent). c < 128"
proof -
  let ?ni = "[10] @ concat (replicate 1 (replicate indent 32))"
  have "\<forall>c \<in> set (iterencode_items (str ''['' @ ?ni) (str '','' @ ?ni) lst). c < 128"
    by (rule iterencode_items_ascii) auto
  then show ?thesis
    by (auto simp: json_dump_def iterencode_list_def Let_def)
qed

lemma encode_json_dump: "encode enc (json_dump lst indent) = Inr (json_dump lst indent)"
  by (rule encode_ascii) (rule json_dump_ascii)

section \<open>Console\<close>

lemma encodable_iff:
  "encodable enc s \<longleftrightarrow> (\<forall>c \<in> set s. \<exists>b. encode_char enc c = Inr b)"
proof (induction s)
  case Nil
  show ?case by (simp add: encodable_def)
next
  case (Cons c s)
  show ?case
  proof (cases "encode_char enc c")
    case (Inl e)
    then show ?thesis by (auto simp: encodable_def)
  next
    case (Inr b)
    then show ?thesis using Cons.IH
      by (cases "encode enc s") (auto simp: encodable_def)
  qed
qed

lemma encodable_Inr: "encodable enc s \<Longrightarrow> \<exists>b. encode enc s = Inr b"
  by (cases "encode enc s") (simp_all add: encodable_def)

lemma not_encodable_Inl: "\<not> encodable enc s \<Longrightarrow> \<exists>e. encode enc s = Inl e"
  by (cases "encode enc s") (simp_all add: encodable_def)

lemma encodable_append: "encodable enc (a @ b) \<longleftrightarrow> encodable enc a \<and> encodable enc b"
  unfolding encodable_iff by auto

lemma encodable_ascii_char: "c < 128 \<Longrightarrow> \<exists>b. encode_char enc c = Inr b"
  by (cases enc) (simp_all add: encode_char_def utf8_char_def)

lemma encodable_ascii: "\<forall>c \<in> set s. c < 128 \<Longrightarrow> encodable enc s"
  unfolding encodable_iff using encodable_ascii_char by blast

lemma print_ok:
  assumes "encodable (stdout_encoding w) line" and "\<not> stdout_fault w (length (stdout w))"
  shows "print w line = (Inr (), w\<lparr>stdout := stdout w @ [line]\<rparr>)"
proof -
  have "encodable (stdout_encoding w) (line @ [10])"
    unfolding encodable_append using assms(1) by (simp add: encodable_ascii)
  then obtain b where "encode (stdout_encoding w) (line @ [10]) = Inr b"
    using encodable_Inr by blast
  then show ?thesis using assms(2) by (simp add: print_def)
qed

lemma print_fails_encoding:
  assumes "\<not> encodable (stdout_encoding w) line"
  shows "\<exists>e. print w line = (Inl e, w)"
proof -
  have "\<not> encodable (stdout_encoding w) (line @ [10])"
    unfolding encodable_append using assms by simp
  then obtain e where "encode (stdout_encoding w) (line @ [10]) = Inl e"
    using not_encodable_Inl by blast
  then show ?thesis by (simp add: print_def)
qed

lemma print_fails_fault:
  assumes "stdout_fault w (length (stdout w))"
  shows "\<exists>e. print w line = (Inl e, w)"
  using assms by (cases "encode (stdout_encoding w) (line @ [10])") (simp_all add: print_def)

lemma print_outcome:
  obtains (ok) "encodable (stdout_encoding w) line" and "\<not> stdout_fault w (length (stdout w))"
      and "print w line = (Inr (), w\<lparr>stdout := stdout w @ [line]\<rparr>)"
  | (raised) e where "\<not> (encodable (stdout_encoding w) line \<and> \<not> stdout_fault w (length (stdout w)))"
      and "print w line = (Inl e, w)"
proof (cases "encodable (stdout_encoding w) line \<and> \<not> stdout_fault w (length (stdout w))")
  case True
  then show ?thesis using print_ok [of w line] ok by blast
next
  case False
  then show ?thesis using print_fails_encoding [of w line] print_fails_fault [of w line] raised
    by blast
qed

lemma print_each_stdout: "\<exists>out. snd (print_each w fs) = w\<lparr>stdout := out\<rparr>"
proof (induction fs arbitrary: w)
  case Nil
  show ?case by (rule exI [of _ "stdout w"]) simp
next
  case (Cons f fs)
  show ?case
  proof (cases rule: print_outcome [of w "str ''  - '' @ f"])
    case ok
    obtain out where "snd (print_each (w\<lparr>stdout := stdout w @ [str ''  - '' @ f]\<rparr>) fs)
        = w\<lparr>stdout := stdout w @ [str ''  - '' @ f]\<rparr>\<lparr>stdout := out\<rparr>"
      using Cons.IH by blast
    then have "snd (print_each w (f # fs)) = w\<lparr>stdout := out\<rparr>"
      using ok(3) by simp
    then show ?thesis by blast
  next
    case (raised e)
    have "snd (print_each w (f # fs)) = w" using raised(2) by simp
    then show ?thesis by (intro exI [of _ "stdout w"]) simp
  qed
qed

lemma print_each_ok:
  assumes "\<forall>n. \<not> stdout_fault w n" and "\<forall>f \<in> set fs. encodable (stdout_encoding w) f"
  shows "fst (print_each w fs) = Inr ()"
  using assms
proof (induction fs arbitrary: w)
  case Nil
  show ?case by simp
next
  case (Cons f fs)
  have e: "encodable (stdout_encoding w) (str ''  - '' @ f)"
    unfolding encodable_append using Cons.prems(2) by (simp add: encodable_ascii)
  have p: "print w (str ''  - '' @ f) = (Inr (), w\<lparr>stdout := stdout w @ [str ''  - '' @ f]\<rparr>)"
    using e Cons.prems(1) by (intro print_ok) auto
  have "fst (print_each (w\<lparr>stdout := stdout w @ [str ''  - '' @ f]\<rparr>) fs) = Inr ()"
    using Cons.prems by (intro Cons.IH) auto
  then show ?case using p by simp
qed

section \<open>Writing the manifest\<close>

lemma map_of_write_entry:
  "map_of (write_entry es n e) m = (if m = n then Some e else map_of es m)"
  by (induction es) auto

lemma write_entry_twice: "write_entry (write_entry es n a) n b = write_entry es n b"
  by (induction es) auto

lemma map_fst_write_present:
  "n \<in> set (map fst es) \<Longrightarrow> map fst (write_entry es n e) = map fst es"
  by (induction es) force+

lemma map_fst_write_absent:
  "n \<notin> set (map fst es) \<Longrightarrow> map fst (write_entry es n e) = map fst es @ [n]"
  by (induction es) auto

lemma put_entry_twice:
  "put_entry (put_entry w p d n a) p (d\<lparr>entries := write_entry (entries d) n a\<rparr>) n b
     = put_entry w p d n b"
  by (simp add: put_entry_def write_entry_twice)

lemma filesystem_put_entry:
  "filesystem (put_entry w p d n e) q
     = (if q = p then Directory (d\<lparr>entries := write_entry (entries d) n e\<rparr>) else filesystem w q)"
  by (simp add: put_entry_def)

lemma manifest_put_entry:
  "manifest (put_entry w p d (str ''models.json'') (File bs mw)) p = Some bs"
  unfolding manifest_def filesystem_put_entry by (simp add: map_of_write_entry)

lemma set_content_after_open:
  assumes "path_split path = (p, n)"
  shows "set_content (put_entry w p d n (File a mw)) path bs = put_entry w p d n (File bs mw)"
  unfolding set_content_def assms prod.case filesystem_put_entry
  by (simp add: map_of_write_entry put_entry_twice)

lemma open_w_outcome:
  assumes "path_split path = (p, n)"
  shows "open_w w path =
    (if open_fault w then (Inl OSError, w)
     else case filesystem w p of
       Missing \<Rightarrow> (Inl FileNotFoundError, w)
     | NotADirectory \<Rightarrow> (Inl NotADirectoryError, w)
     | Directory d \<Rightarrow>
         (case map_of (entries d) n of
            Some Subdirectory \<Rightarrow> (Inl IsADirectoryError, w)
          | Some (File content may_write) \<Rightarrow>
              if may_write then (Inr (), put_entry w p d n (File [] may_write))
              else (Inl PermissionError, w)
          | None \<Rightarrow>
              if writable d then (Inr (), put_entry w p d n (File [] True))
              else (Inl PermissionError, w)))"
  unfolding open_w_def assms prod.case ..

lemma write_manifest_can:
  assumes "can_write_manifest w (models_dir script_dir)"
  shows "\<exists>d mw. filesystem w (models_dir script_dir) = Directory d
    \<and> write_manifest w (path_join (models_dir script_dir) [str ''models.json'']) files
        = (Inr (), put_entry w (models_dir script_dir) d (str ''models.json'')
                     (File (json_dump files 2) mw))"
proof -
  define M where "M = str ''models.json''"
  define p where "p = models_dir script_dir"
  define jf where "jf = path_join p [M]"
  have sp: "path_split jf = (p, M)" unfolding jf_def p_def M_def by (rule manifest_split)
  have cw: "\<not> open_fault w" "write_fault w = None"
    using assms by (simp_all add: can_write_manifest_def)
  obtain d where d: "filesystem w p = Directory d"
    using assms unfolding can_write_manifest_def p_def by (cases "filesystem w (models_dir script_dir)") simp_all
  have slot: "case map_of (entries d) M of Some (File content may_write) \<Rightarrow> may_write
      | Some Subdirectory \<Rightarrow> False | None \<Rightarrow> writable d"
    using assms d unfolding can_write_manifest_def p_def M_def by simp
  obtain mw where o: "open_w w jf = (Inr (), put_entry w p d M (File [] mw))"
  proof (cases "map_of (entries d) M")
    case None
    then have "open_w w jf = (Inr (), put_entry w p d M (File [] True))"
      using slot cw d unfolding open_w_outcome [OF sp] by simp
    then show ?thesis using that by blast
  next
    case (Some e)
    show ?thesis
    proof (cases e)
      case (File c m)
      then have "open_w w jf = (Inr (), put_entry w p d M (File [] m))"
        using slot cw d Some unfolding open_w_outcome [OF sp] by simp
      then show ?thesis using that by blast
    next
      case Subdirectory
      then show ?thesis using slot Some by simp
    qed
  qed
  have wf: "write_fault (put_entry w p d M (File [] mw)) = None"
    using cw(2) by (simp add: put_entry_def)
  have "write_manifest w jf files = (Inr (), put_entry w p d M (File (json_dump files 2) mw))"
    unfolding write_manifest_def o prod.case sum.case encode_json_dump write_close_def wf
      option.case set_content_after_open [OF sp] ..
  then show ?thesis using d unfolding jf_def p_def M_def by blast
qed

lemma write_manifest_needs:
  assumes "write_manifest w (path_join (models_dir script_dir) [str ''models.json'']) files
      = (Inr u, w')"
  shows "can_write_manifest w (models_dir script_dir)"
proof -
  define M where "M = str ''models.json''"
  define p where "p = models_dir script_dir"
  define jf where "jf = path_join p [M]"
  have sp: "path_split jf = (p, M)" unfolding jf_def p_def M_def by (rule manifest_split)
  have a: "write_manifest w jf files = (Inr u, w')"
    using assms unfolding jf_def p_def M_def .
  obtain r w1 where o: "open_w w jf = (r, w1)" by (cases "open_w w jf")
  have r: "r = Inr ()" using a unfolding write_manifest_def o by (cases r) simp_all
  have nf: "\<not> open_fault w"
    using o r unfolding open_w_outcome [OF sp] by (auto split: if_splits)
  have slot: "case filesystem w p of
        Directory d \<Rightarrow>
          (case map_of (entries d) M of Some (File content may_write) \<Rightarrow> may_write
            | Some Subdirectory \<Rightarrow> False | None \<Rightarrow> writable d)
      | NotADirectory \<Rightarrow> False | Missing \<Rightarrow> False"
    using o r nf unfolding open_w_outcome [OF sp]
    by (auto split: node.splits option.splits entry.splits if_splits)
  have same: "write_fault w1 = write_fault w"
    using o r nf unfolding open_w_outcome [OF sp]
    by (auto simp: put_entry_def split: node.splits option.splits entry.splits if_splits)
  have "write_fault w1 = None"
    using a unfolding write_manifest_def o r prod.case sum.case encode_json_dump write_close_def
    by (cases "write_fault w1") simp_all
  then have "write_fault w = None" using same by simp
  then show ?thesis using nf slot unfolding can_write_manifest_def p_def M_def by simp
qed

section \<open>Running the function\<close>

lemma scandir_names_stdout: "scandir_names (w\<lparr>stdout := out\<rparr>) p = scandir_names w p"
  by (simp add: scandir_names_def)

lemma glob_glob_stdout: "glob_glob (w\<lparr>stdout := out\<rparr>) pathname = glob_glob w pathname"
  unfolding glob_glob_def scandir_names_stdout
  by (cases "path_split pathname") simp

lemma csv_files_stdout: "csv_files (w\<lparr>stdout := out\<rparr>) m = csv_files w m"
  unfolding csv_files_def glob_glob_stdout ..

lemma put_entry_stdout:
  "(put_entry (w\<lparr>stdout := s\<rparr>) p d n e)\<lparr>stdout := out\<rparr> = (put_entry w p d n e)\<lparr>stdout := out\<rparr>"
  by (simp add: put_entry_def)

lemma can_write_manifest_stdout:
  "can_write_manifest (w\<lparr>stdout := out\<rparr>) m = can_write_manifest w m"
  by (simp add: can_write_manifest_def)

lemma models_dir_shape:
  "\<exists>y. (y = script_dir \<or> y = script_dir @ [sep])
     \<and> models_dir script_dir = y @ str ''src'' @ [sep] @ str ''data'' @ [sep] @ str ''models''"
proof -
  have a: "\<not> startswith (str ''src'') [sep]" "\<not> startswith (str ''data'') [sep]"
    "\<not> startswith (str ''models'') [sep]"
    by (simp_all add: startswith_def sep_def)
  obtain y where y: "y = script_dir \<or> y = script_dir @ [sep]"
    and j: "join_step script_dir (str ''src'') = y @ str ''src''"
    using a(1) unfolding join_step_def by (cases "script_dir = [] \<or> endswith script_dir [sep]") auto
  have b: "\<not> endswith (y @ str ''src'') [sep]" "\<not> endswith ((y @ str ''src'') @ [sep] @ str ''data'') [sep]"
    by (simp_all add: endswith_def sep_def)
  have "join_step (y @ str ''src'') (str ''data'') = (y @ str ''src'') @ [sep] @ str ''data''"
    using a(2) b(1) unfolding join_step_def by simp
  moreover have "join_step ((y @ str ''src'') @ [sep] @ str ''data'') (str ''models'')
      = ((y @ str ''src'') @ [sep] @ str ''data'') @ [sep] @ str ''models''"
    using a(3) b(2) unfolding join_step_def by simp
  ultimately have "models_dir script_dir
      = y @ str ''src'' @ [sep] @ str ''data'' @ [sep] @ str ''models''"
    unfolding models_dir_def path_join_def using j by simp
  then show ?thesis using y by blast
qed

lemma encodable_models_dir:
  "encodable enc (models_dir script_dir) \<longleftrightarrow> encodable enc script_dir"
proof -
  obtain y where y: "y = script_dir \<or> y = script_dir @ [sep]"
    and m: "models_dir script_dir = y @ str ''src'' @ [sep] @ str ''data'' @ [sep] @ str ''models''"
    using models_dir_shape by blast
  define t where "t = str ''src'' @ [sep] @ str ''data'' @ [sep] @ str ''models''"
  have t: "encodable enc t"
    unfolding t_def by (rule encodable_ascii) (simp add: sep_def)
  have s: "encodable enc [sep]" by (rule encodable_ascii) (simp add: sep_def)
  have "encodable enc y \<longleftrightarrow> encodable enc script_dir"
    using y s by (auto simp: encodable_append)
  moreover have "models_dir script_dir = y @ t" unfolding m t_def ..
  ultimately show ?thesis using t by (simp add: encodable_append)
qed

lemma encodable_manifest_path:
  "encodable enc (path_join (models_dir script_dir) [str ''models.json''])
     \<longleftrightarrow> encodable enc script_dir"
proof -
  have a: "\<not> startswith (str ''models.json'') [sep]" by (simp add: startswith_def sep_def)
  have "encodable enc ([sep] @ str ''models.json'')"
    by (rule encodable_ascii) (simp add: sep_def)
  then show ?thesis
    unfolding join_under_models [OF a] encodable_append [of enc "models_dir script_dir"]
      encodable_models_dir by simp
qed

lemma str_of_nat_ascii: "\<forall>c \<in> set (str_of_nat n). c < 128"
proof (induction n rule: str_of_nat.induct)
  case (1 n)
  show ?case
  proof (cases "n < 10")
    case True
    then show ?thesis by (simp add: str_of_nat.simps [of n])
  next
    case False
    have "48 + n mod 10 < 128" by simp
    then show ?thesis using False 1 by (simp add: str_of_nat.simps [of n])
  qed
qed

lemma report_stdout: "\<exists>out. snd (report w jf fs) = w\<lparr>stdout := out\<rparr>"
proof -
  let ?g = "str ''Generated '' @ jf @ str '' with '' @ str_of_nat (length fs) @ str '' CSV files:''"
  let ?u = "10 # str ''Models.json has been updated! Your web app will now automatically detect all CSV files.''"
  show ?thesis
  proof (cases rule: print_outcome [of w ?g])
    case (raised e)
    then have "snd (report w jf fs) = w" by (simp add: report_def)
    then show ?thesis by (intro exI [of _ "stdout w"]) simp
  next
    case ok
    let ?w1 = "w\<lparr>stdout := stdout w @ [?g]\<rparr>"
    obtain r w2 where pe: "print_each ?w1 fs = (r, w2)" by (cases "print_each ?w1 fs")
    obtain o2 where o2: "w2 = ?w1\<lparr>stdout := o2\<rparr>"
      using print_each_stdout [of ?w1 fs] pe by auto
    show ?thesis
    proof (cases r)
      case (Inl e)
      then have "snd (report w jf fs) = w2" using ok(3) pe by (simp add: report_def)
      then show ?thesis unfolding o2 by (intro exI [of _ o2]) simp
    next
      case (Inr u)
      show ?thesis
      proof (cases rule: print_outcome [of w2 ?u])
        case (raised e)
        then have "snd (report w jf fs) = w2" using ok(3) pe Inr by (simp add: report_def)
        then show ?thesis unfolding o2 by (intro exI [of _ o2]) simp
      next
        case ok2: ok
        then have "snd (report w jf fs) = w2\<lparr>stdout := stdout w2 @ [?u]\<rparr>"
          using ok(3) pe Inr by (simp add: report_def)
        then show ?thesis unfolding o2 by (intro exI [of _ "o2 @ [?u]"]) simp
      qed
    qed
  qed
qed


lemma report_ok:
  assumes "\<forall>n. \<not> stdout_fault w n" and "encodable (stdout_encoding w) jf"
    and "\<forall>f \<in> set fs. encodable (stdout_encoding w) f"
  shows "fst (report w jf fs) = Inr True"
proof -
  let ?g = "str ''Generated '' @ jf @ str '' with '' @ str_of_nat (length fs) @ str '' CSV files:''"
  let ?u = "10 # str ''Models.json has been updated! Your web app will now automatically detect all CSV files.''"
  let ?w1 = "w\<lparr>stdout := stdout w @ [?g]\<rparr>"
  have "encodable (stdout_encoding w) (str_of_nat (length fs))"
    by (rule encodable_ascii) (rule str_of_nat_ascii)
  then have "encodable (stdout_encoding w) ?g"
    unfolding encodable_append using assms(2) by (simp add: encodable_ascii)
  then have p1: "print w ?g = (Inr (), ?w1)" using assms(1) by (intro print_ok) auto
  have p2: "fst (print_each ?w1 fs) = Inr ()"
    using assms(1,3) by (intro print_each_ok) auto
  obtain w2 where pe: "print_each ?w1 fs = (Inr (), w2)"
    using p2 by (cases "print_each ?w1 fs") auto
  obtain o2 where o2: "w2 = ?w1\<lparr>stdout := o2\<rparr>"
    using print_each_stdout [of ?w1 fs] pe by auto
  have "encodable (stdout_encoding w2) ?u" by (rule encodable_ascii) simp
  moreover have "\<not> stdout_fault w2 (length (stdout w2))" unfolding o2 using assms(1) by simp
  ultimately have p3: "print w2 ?u = (Inr (), w2\<lparr>stdout := stdout w2 @ [?u]\<rparr>)"
    by (rule print_ok)
  show ?thesis unfolding report_def p1 prod.case sum.case pe p3 by simp
qed

lemma run_missing_ok:
  assumes "filesystem w (models_dir script_dir) = Missing"
    and "encodable (stdout_encoding w) script_dir"
    and "\<not> stdout_fault w (length (stdout w))"
  shows "update_models_json script_dir w =
    (Inr False,
     w\<lparr>stdout := stdout w @ [str ''Error: Models directory not found at '' @ models_dir script_dir]\<rparr>)"
proof -
  let ?m = "str ''Error: Models directory not found at '' @ models_dir script_dir"
  have "encodable (stdout_encoding w) ?m"
    unfolding encodable_append encodable_models_dir using assms(2) by (simp add: encodable_ascii)
  then have "print w ?m = (Inr (), w\<lparr>stdout := stdout w @ [?m]\<rparr>)"
    using assms(3) by (rule print_ok)
  then show ?thesis
    unfolding update_models_json_def Let_def path_exists_def using assms(1) by simp
qed

lemma run_missing_raise:
  assumes "filesystem w (models_dir script_dir) = Missing"
    and "\<not> (encodable (stdout_encoding w) script_dir \<and> \<not> stdout_fault w (length (stdout w)))"
  shows "\<exists>e. update_models_json script_dir w = (Inl e, w)"
proof -
  let ?m = "str ''Error: Models directory not found at '' @ models_dir script_dir"
  have "encodable (stdout_encoding w) ?m \<longleftrightarrow> encodable (stdout_encoding w) script_dir"
    unfolding encodable_append encodable_models_dir by (simp add: encodable_ascii)
  then have "\<not> (encodable (stdout_encoding w) ?m \<and> \<not> stdout_fault w (length (stdout w)))"
    using assms(2) by simp
  then obtain e where "print w ?m = (Inl e, w)"
    by (cases rule: print_outcome [of w ?m]) auto
  then have "update_models_json script_dir w = (Inl e, w)"
    unfolding update_models_json_def Let_def path_exists_def using assms(1) by simp
  then show ?thesis ..
qed

lemma run_present:
  assumes "filesystem w (models_dir script_dir) \<noteq> Missing"
  shows "update_models_json script_dir w =
    (case print w (str ''Scanning for CSV files in '' @ models_dir script_dir @ str ''...'') of
       (Inl e, w1) \<Rightarrow> (Inl e, w1)
     | (Inr u, w1) \<Rightarrow>
         (case write_manifest w1 (path_join (models_dir script_dir) [str ''models.json''])
                 (csv_files w1 (models_dir script_dir)) of
            (Inl e, w2) \<Rightarrow> (Inl e, w2)
          | (Inr u, w2) \<Rightarrow>
              report w2 (path_join (models_dir script_dir) [str ''models.json''])
                (csv_files w1 (models_dir script_dir))))"
  unfolding update_models_json_def Let_def path_exists_def using assms by simp


lemma run_True:
  assumes "update_models_json script_dir w = (Inr True, w')"
  shows "can_write_manifest w (models_dir script_dir)
    \<and> (\<exists>d mw out. filesystem w (models_dir script_dir) = Directory d
          \<and> w' = (put_entry w (models_dir script_dir) d (str ''models.json'')
                    (File (json_dump (csv_files w (models_dir script_dir)) 2) mw))
                  \<lparr>stdout := out\<rparr>)"
proof -
  define p where "p = models_dir script_dir"
  define M where "M = str ''models.json''"
  define jf where "jf = path_join (models_dir script_dir) [str ''models.json'']"
  let ?s = "str ''Scanning for CSV files in '' @ models_dir script_dir @ str ''...''"
  have ex: "filesystem w (models_dir script_dir) \<noteq> Missing"
  proof
    assume m: "filesystem w (models_dir script_dir) = Missing"
    show False
    proof (cases "encodable (stdout_encoding w) script_dir \<and> \<not> stdout_fault w (length (stdout w))")
      case True
      then show False using run_missing_ok [OF m] assms by simp
    next
      case False
      then show False using run_missing_raise [OF m] assms by auto
    qed
  qed
  note r = assms [unfolded run_present [OF ex], folded jf_def]
  show ?thesis
  proof (cases rule: print_outcome [of w ?s])
    case (raised e)
    then show ?thesis using r by simp
  next
    case ok
    let ?w1 = "w\<lparr>stdout := stdout w @ [?s]\<rparr>"
    let ?fs = "csv_files w (models_dir script_dir)"
    obtain r2 w2 where wm: "write_manifest ?w1 jf ?fs = (r2, w2)"
      by (cases "write_manifest ?w1 jf ?fs")
    have r': "(case (r2, w2) of (Inl e, w2) \<Rightarrow> (Inl e, w2)
        | (Inr u, w2) \<Rightarrow> report w2 jf ?fs) = (Inr True, w')"
      using r unfolding ok(3) prod.case sum.case csv_files_stdout wm .
    obtain u where r2: "r2 = Inr u" using r' by (cases r2) simp_all
    have rep: "report w2 jf ?fs = (Inr True, w')" using r' unfolding r2 by simp
    have can1: "can_write_manifest ?w1 (models_dir script_dir)"
      using wm unfolding r2 jf_def by (rule write_manifest_needs)
    then have can: "can_write_manifest w (models_dir script_dir)"
      unfolding can_write_manifest_stdout .
    obtain d mw where d: "filesystem ?w1 (models_dir script_dir) = Directory d"
      and w2: "write_manifest ?w1 jf ?fs
        = (Inr (), put_entry ?w1 (models_dir script_dir) d (str ''models.json'')
                     (File (json_dump ?fs 2) mw))"
      using write_manifest_can [OF can1, of ?fs] unfolding jf_def by blast
    have w2': "w2 = put_entry ?w1 (models_dir script_dir) d (str ''models.json'')
                     (File (json_dump ?fs 2) mw)"
      using wm w2 by simp
    obtain out where "snd (report w2 jf ?fs) = w2\<lparr>stdout := out\<rparr>"
      using report_stdout by blast
    then have "w' = w2\<lparr>stdout := out\<rparr>" using rep by simp
    then have "w' = (put_entry w (models_dir script_dir) d (str ''models.json'')
                     (File (json_dump ?fs 2) mw))\<lparr>stdout := out\<rparr>"
      unfolding w2' put_entry_stdout .
    moreover have "filesystem w (models_dir script_dir) = Directory d" using d by simp
    ultimately show ?thesis using can by blast
  qed
qed

lemma run_success:
  assumes "console_accepts w script_dir" and "can_write_manifest w (models_dir script_dir)"
  shows "fst (update_models_json script_dir w) = Inr True"
proof -
  define jf where "jf = path_join (models_dir script_dir) [str ''models.json'']"
  let ?s = "str ''Scanning for CSV files in '' @ models_dir script_dir @ str ''...''"
  let ?w1 = "w\<lparr>stdout := stdout w @ [?s]\<rparr>"
  let ?fs = "csv_files w (models_dir script_dir)"
  have nf: "\<forall>n. \<not> stdout_fault w n" and es: "encodable (stdout_encoding w) script_dir"
    and ef: "\<forall>f \<in> set ?fs. encodable (stdout_encoding w) f"
    using assms(1) by (simp_all add: console_accepts_def)
  have ex: "filesystem w (models_dir script_dir) \<noteq> Missing"
    using assms(2) by (auto simp: can_write_manifest_def)
  have "encodable (stdout_encoding w) ?s"
    unfolding encodable_append encodable_models_dir using es by (simp add: encodable_ascii)
  then have p1: "print w ?s = (Inr (), ?w1)" using nf by (intro print_ok) auto
  have can1: "can_write_manifest ?w1 (models_dir script_dir)"
    unfolding can_write_manifest_stdout using assms(2) .
  obtain d mw where w2: "write_manifest ?w1 jf ?fs
        = (Inr (), put_entry ?w1 (models_dir script_dir) d (str ''models.json'')
                     (File (json_dump ?fs 2) mw))"
    using write_manifest_can [OF can1, of ?fs] unfolding jf_def by blast
  let ?w2 = "put_entry ?w1 (models_dir script_dir) d (str ''models.json'') (File (json_dump ?fs 2) mw)"
  have a: "\<forall>n. \<not> stdout_fault ?w2 n" using nf by (simp add: put_entry_def)
  have b: "encodable (stdout_encoding ?w2) jf"
    unfolding jf_def encodable_manifest_path using es by (simp add: put_entry_def)
  have c: "\<forall>f \<in> set ?fs. encodable (stdout_encoding ?w2) f" using ef by (simp add: put_entry_def)
  have "fst (report ?w2 jf ?fs) = Inr True" using a b c by (rule report_ok)
  then show ?thesis
    unfolding run_present [OF ex] p1 prod.case sum.case csv_files_stdout
      w2 [unfolded jf_def] jf_def .
qed

section \<open>Instances\<close>

lemma models_dir_app: "models_dir (str ''/app'') = app_models"
  by (simp add: models_dir_def path_join_def join_step_def startswith_def endswith_def sep_def
        app_models_def)

lemma app_models_plain: "\<not> has_magic app_models"
  by (simp add: has_magic_def app_models_def star_def qmark_def)

lemma plain_world_simps:
  "filesystem (plain_world fs) = fs" "glob_dirs (plain_world fs) = (\<lambda>p. [])"
  "encoding (plain_world fs) = UTF_8" "stdout_encoding (plain_world fs) = UTF_8"
  "stdout_fault (plain_world fs) = (\<lambda>n. False)" "open_fault (plain_world fs) = False"
  "write_fault (plain_world fs) = None" "flush_fault (plain_world fs) = False"
  "stdout (plain_world fs) = []"
  by (simp_all add: plain_world_def)

lemma only_at_simps: "only_at p d p = Directory d" "q \<noteq> p \<Longrightarrow> only_at p d q = Missing"
  by (simp_all add: only_at_def)

lemma wf_world_only_at: "wf_dir d \<Longrightarrow> wf_world (plain_world (only_at p d))"
  by (simp add: wf_world_def plain_world_simps only_at_def)

lemma scandir_names_plain:
  "scandir_names (plain_world (only_at p (plain_dir files))) p = map fst files"
  by (simp add: scandir_names_def plain_world_simps only_at_simps plain_dir_def comp_def
        case_prod_beta)

lemma ascii_encodable_utf8: "\<forall>c \<in> set s. c < 128 \<Longrightarrow> encodable UTF_8 s"
  by (rule encodable_ascii)

section \<open>What the scan collects\<close>

lemma collect_unguarded_eq: "collect_unguarded ps acc = acc @ map basename ps"
  by (induction ps arbitrary: acc) simp_all

lemma basename_csv:
  assumes "endswith n (str ''.csv'')"
  shows "endswith (basename n) (str ''.csv'')"
proof -
  obtain q where q: "n = q @ str ''.csv''" using assms unfolding endswith_iff ..
  have "sep \<notin> set (str ''.csv'')" by (simp add: sep_def)
  then have "basename (q @ str ''.csv'') = basename q @ str ''.csv''"
    by (rule basename_append_absent)
  then show ?thesis unfolding q endswith_iff by blast
qed

lemma glob_basenames_not_manifest:
  assumes "p \<in> set (glob_glob w (path_join (models_dir script_dir) [str ''*.csv'']))"
  shows "basename p \<noteq> str ''models.json''"
proof -
  from glob_glob_elements [OF assms] obtain d n where n: "endswith n (str ''.csv'')"
    and p: "p = path_join d [n]"
    by blast
  have "endswith (basename n) (str ''.csv'')" using n by (rule basename_csv)
  then have "basename n \<noteq> str ''models.json''" by (rule csv_not_manifest)
  then show ?thesis unfolding p basename_path_join .
qed

lemma manifest_name_not_collected: "str ''models.json'' \<notin> set (csv_files w mdir)"
  unfolding csv_files_def Let_def set_sort collect_eq by simp

lemma scandir_names_sep_free:
  assumes "wf_world w" and "n \<in> set (scandir_names w p)"
  shows "sep \<notin> set n"
proof (cases "filesystem w p")
  case (Directory d)
  then have "wf_dir d" using assms(1) by (simp add: wf_world_def)
  moreover have "n \<in> set (map fst (entries d))"
    using assms(2) Directory by (simp add: scandir_names_def split: if_splits)
  ultimately show ?thesis unfolding wf_dir_def by blast
next
  case Missing
  then show ?thesis using assms(2) by (simp add: scandir_names_def)
next
  case NotADirectory
  then show ?thesis using assms(2) by (simp add: scandir_names_def)
qed

lemma csv_files_from_names:
  assumes "f \<in> set (csv_files w (models_dir script_dir))"
  shows "\<exists>d n. f = basename n \<and> \<not> ishidden n \<and> endswith n (str ''.csv'')
           \<and> n \<in> set (scandir_names w d)"
proof -
  from assms obtain p where p: "p \<in> set (glob_glob w (path_join (models_dir script_dir) [str ''*.csv'']))"
    and f: "f = basename p"
    unfolding set_csv_files by blast
  from glob_glob_elements [OF p] obtain d n where "p = path_join d [n]" "\<not> ishidden n"
    "endswith n (str ''.csv'')" "n \<in> set (scandir_names w d)"
    by blast
  then show ?thesis unfolding f using basename_path_join by blast
qed

lemma hidden_not_collected:
  assumes "wf_world w" and "ishidden n"
  shows "n \<notin> set (csv_files w (models_dir script_dir))"
proof
  assume "n \<in> set (csv_files w (models_dir script_dir))"
  then obtain d m where m: "n = basename m" "\<not> ishidden m" "m \<in> set (scandir_names w d)"
    using csv_files_from_names by blast
  have "sep \<notin> set m" using assms(1) m(3) by (rule scandir_names_sep_free)
  then have "basename m = m" by (rule basename_sep_free)
  then show False using m(1,2) assms(2) by simp
qed

lemma manifest_stdout: "manifest (w\<lparr>stdout := out\<rparr>) p = manifest w p"
  by (simp add: manifest_def)

lemma run_True_manifest:
  assumes "update_models_json script_dir w = (Inr True, w')"
  shows "manifest w' (models_dir script_dir)
    = Some (json_dump (csv_files w (models_dir script_dir)) 2)"
proof -
  obtain d mw out where "w' = (put_entry w (models_dir script_dir) d (str ''models.json'')
      (File (json_dump (csv_files w (models_dir script_dir)) 2) mw))\<lparr>stdout := out\<rparr>"
    using run_True [OF assms] by blast
  then show ?thesis unfolding manifest_stdout by (simp only: manifest_stdout manifest_put_entry)
qed

lemma map_of_plain_dir:
  "map_of (entries (plain_dir files)) k = map_option (\<lambda>c. File c True) (map_of files k)"
  unfolding plain_dir_def by (induction files) auto

lemma plain_dir_flags: "readable (plain_dir files)" "writable (plain_dir files)"
  by (simp_all add: plain_dir_def)

lemma plain_can_write:
  "can_write_manifest (plain_world (only_at p (plain_dir files))) p"
  by (cases "map_of files (str ''models.json'')")
     (simp_all add: can_write_manifest_def plain_world_simps only_at_simps map_of_plain_dir
        plain_dir_flags)

lemma plain_csv_files:
  assumes "\<forall>n \<in> set (map fst files). sep \<notin> set n"
  shows "csv_files (plain_world (only_at app_models (plain_dir files))) (models_dir (str ''/app''))
    = sort (filter (\<lambda>n. \<not> ishidden n \<and> endswith n (str ''.csv'')) (map fst files))"
proof -
  let ?w = "plain_world (only_at app_models (plain_dir files))"
  have a: "\<not> has_magic (models_dir (str ''/app''))"
    unfolding models_dir_app by (rule app_models_plain)
  have b: "scandir_names ?w (models_dir (str ''/app'')) = map fst files"
    unfolding models_dir_app by (rule scandir_names_plain)
  have c: "\<forall>n \<in> set (scandir_names ?w (models_dir (str ''/app''))). sep \<notin> set n"
    unfolding b using assms .
  show ?thesis unfolding csv_files_sep_free [OF a c] b ..
qed

lemma plain_run:
  assumes "\<forall>n \<in> set (map fst files). sep \<notin> set n"
    and "\<forall>n \<in> set (map fst files). \<forall>c \<in> set n. c < 128"
  shows "fst (update_models_json (str ''/app'') (plain_world (only_at app_models (plain_dir files))))
    = Inr True"
proof -
  let ?w = "plain_world (only_at app_models (plain_dir files))"
  have "\<forall>f \<in> set (csv_files ?w (models_dir (str ''/app''))). \<forall>c \<in> set f. c < 128"
    unfolding plain_csv_files [OF assms(1)] set_sort set_filter using assms(2) by blast
  then have "\<forall>f \<in> set (csv_files ?w (models_dir (str ''/app''))). encodable UTF_8 f"
    using encodable_ascii by blast
  moreover have "encodable UTF_8 (str ''/app'')" by (rule encodable_ascii) simp
  ultimately have "console_accepts ?w (str ''/app'')"
    unfolding console_accepts_def plain_world_simps by simp
  moreover have "can_write_manifest ?w (models_dir (str ''/app''))"
    unfolding models_dir_app by (rule plain_can_write)
  ultimately show ?thesis by (rule run_success)
qed

lemma example_csv_files:
  "csv_files example_world (models_dir (str ''/app'')) = [str ''a.csv'', str ''b.csv'', str ''c.csv'']"
proof -
  have "\<forall>n \<in> set (map fst [(str ''a.csv'', [49]), (str ''c.csv'', []), (str ''b.csv'', [50, 10]),
      (str ''models.json'', str ''stale'')]). sep \<notin> set n"
    by (simp add: sep_def)
  from plain_csv_files [OF this] show ?thesis
    unfolding example_world_def by (simp add: dot_def endswith_def)
qed

lemma example_run: "fst (update_models_json (str ''/app'') example_world) = Inr True"
  unfolding example_world_def by (rule plain_run) (simp_all add: sep_def)

section \<open>The properties\<close>

text \<open>
  C9: the test of line 26 never fires. On the paths that \<open>glob\<close> returns for \<open>*.csv\<close>,
  the loop with the test and the loop without it build the same list, in every world;
  removing \<open>models.json\<close> from the names that match \<open>*.csv\<close> changes nothing, because
  \<open>models.json\<close> does not match \<open>*.csv\<close>.
\<close>

theorem exclusion_redundant:
  "collect (glob_glob w (path_join (models_dir script_dir) [str ''*.csv''])) []
     = collect_unguarded (glob_glob w (path_join (models_dir script_dir) [str ''*.csv''])) []
   \<and> filter (\<lambda>n. n \<noteq> str ''models.json'') (glob1 names (str ''*.csv''))
     = glob1 names (str ''*.csv'')
   \<and> \<not> fnmatch (str ''models.json'') (str ''*.csv'')"
proof -
  let ?ps = "glob_glob w (path_join (models_dir script_dir) [str ''*.csv''])"
  have "\<forall>f \<in> set (map basename ?ps). f \<noteq> str ''models.json''"
  proof
    fix f
    assume "f \<in> set (map basename ?ps)"
    then have "f \<in> basename ` set ?ps" unfolding set_map .
    then obtain p where p: "p \<in> set ?ps" and f: "f = basename p" by (rule imageE) (rule that)
    show "f \<noteq> str ''models.json''" unfolding f using p by (rule glob_basenames_not_manifest)
  qed
  then have "filter (\<lambda>f. f \<noteq> str ''models.json'') (map basename ?ps) = map basename ?ps"
    by (rule filter_True)
  then have a: "collect ?ps [] = collect_unguarded ?ps []"
    unfolding collect_eq collect_unguarded_eq by (simp only:)
  have "\<forall>n \<in> set (glob1 names (str ''*.csv'')). n \<noteq> str ''models.json''"
  proof
    fix n
    assume "n \<in> set (glob1 names (str ''*.csv''))"
    then have "endswith n (str ''.csv'')" unfolding glob1_csv set_filter by blast
    then show "n \<noteq> str ''models.json''" by (rule csv_not_manifest)
  qed
  then have b: "filter (\<lambda>n. n \<noteq> str ''models.json'') (glob1 names (str ''*.csv''))
     = glob1 names (str ''*.csv'')"
    by (rule filter_True)
  have c: "\<not> fnmatch (str ''models.json'') (str ''*.csv'')"
    unfolding fnmatch_csv by (simp add: endswith_def)
  show ?thesis using a b c by (intro conjI)
qed

theorem exclusion_redundant_witness:
  "collect_unguarded (glob_glob example_world
       (path_join (models_dir (str ''/app'')) [str ''*.csv''])) []
     = [str ''a.csv'', str ''c.csv'', str ''b.csv'']
   \<and> collect (glob_glob example_world
       (path_join (models_dir (str ''/app'')) [str ''*.csv''])) []
     = [str ''a.csv'', str ''c.csv'', str ''b.csv'']
   \<and> str ''models.json'' \<in> set (scandir_names example_world (models_dir (str ''/app'')))"
proof -
  let ?ps = "glob_glob example_world (path_join (models_dir (str ''/app'')) [str ''*.csv''])"
  have a: "\<not> has_magic (models_dir (str ''/app''))"
    unfolding models_dir_app by (rule app_models_plain)
  have n: "scandir_names example_world (models_dir (str ''/app''))
      = [str ''a.csv'', str ''c.csv'', str ''b.csv'', str ''models.json'']"
    unfolding models_dir_app example_world_def scandir_names_plain by simp
  have e: "collect_unguarded ?ps [] = [str ''a.csv'', str ''c.csv'', str ''b.csv'']"
    unfolding glob_glob_plain [OF a] collect_unguarded_eq n
    by (simp add: comp_def basename_path_join basename_sep_free dot_def endswith_def sep_def)
  have "collect ?ps [] = collect_unguarded ?ps []"
    using exclusion_redundant [of example_world "str ''/app''"] by (rule conjunct1)
  then have c: "collect ?ps [] = [str ''a.csv'', str ''c.csv'', str ''b.csv'']"
    using e by (simp only:)
  have m: "str ''models.json'' \<in> set (scandir_names example_world (models_dir (str ''/app'')))"
    unfolding n by simp
  show ?thesis using e c m by (intro conjI)
qed

lemma replace_starts_with_backslash: "\<exists>t. replace c = 92 # t"
  by (cases "ESCAPE_DCT c")
     (auto simp: replace_def ESCAPE_DCT_def Let_def split: if_splits)

lemma unescaped_text:
  assumes "92 \<notin> set (concat (map (\<lambda>c. if ESCAPE_ASCII c then replace c else [c]) s))"
  shows "concat (map (\<lambda>c. if ESCAPE_ASCII c then replace c else [c]) s) = s"
  using assms
proof (induction s)
  case Nil
  show ?case by simp
next
  case (Cons c s)
  obtain t where t: "replace c = 92 # t" using replace_starts_with_backslash by blast
  have "\<not> ESCAPE_ASCII c" using Cons.prems t by auto
  then show ?case using Cons by simp
qed

lemma encoded_manifest_name:
  assumes "py_encode_basestring_ascii s = py_encode_basestring_ascii (str ''models.json'')"
  shows "s = str ''models.json''"
proof -
  let ?esc = "\<lambda>s. concat (map (\<lambda>c. if ESCAPE_ASCII c then replace c else [c]) s)"
  have m: "?esc (str ''models.json'') = str ''models.json''"
    by (simp add: ESCAPE_ASCII_def)
  have "?esc s = ?esc (str ''models.json'')"
    using assms unfolding py_encode_basestring_ascii_def by simp
  then have e: "?esc s = str ''models.json''" using m by (simp only:)
  have "92 \<notin> set (str ''models.json'')" by simp
  then have "92 \<notin> set (?esc s)" unfolding e .
  then have "?esc s = s" by (rule unescaped_text)
  then show ?thesis using e by (simp only:)
qed

lemma example_run_outcome:
  obtains w' where "update_models_json (str ''/app'') example_world = (Inr True, w')"
  using example_run by (cases "update_models_json (str ''/app'') example_world") auto

text \<open>
  C7: after every run that returns \<open>True\<close>, whatever the world was, the manifest is the
  serialisation of a list that does not have \<open>models.json\<close> among its elements, and
  none of the serialised elements is the JSON string \<open>"models.json"\<close>.
\<close>

theorem manifest_excludes_itself:
  assumes "update_models_json script_dir w = (Inr True, w')"
  shows "let L = csv_files w (models_dir script_dir) in
    manifest w' (models_dir script_dir) = Some (json_dump L 2)
    \<and> str ''models.json'' \<notin> set L
    \<and> py_encode_basestring_ascii (str ''models.json'') \<notin> set (map py_encode_basestring_ascii L)"
proof -
  let ?L = "csv_files w (models_dir script_dir)"
  have a: "manifest w' (models_dir script_dir) = Some (json_dump ?L 2)"
    using assms by (rule run_True_manifest)
  have b: "str ''models.json'' \<notin> set ?L" by (rule manifest_name_not_collected)
  have c: "py_encode_basestring_ascii (str ''models.json'') \<notin> set (map py_encode_basestring_ascii ?L)"
  proof
    assume "py_encode_basestring_ascii (str ''models.json'') \<in> set (map py_encode_basestring_ascii ?L)"
    then have "py_encode_basestring_ascii (str ''models.json'') \<in> py_encode_basestring_ascii ` set ?L"
      unfolding set_map .
    then obtain s where s: "s \<in> set ?L"
      and e: "py_encode_basestring_ascii (str ''models.json'') = py_encode_basestring_ascii s"
      by (rule imageE) (rule that)
    have "s = str ''models.json''" using e [symmetric] by (rule encoded_manifest_name)
    then show False using s b by (simp only:)
  qed
  show ?thesis unfolding Let_def using a b c by (intro conjI)
qed

theorem manifest_excludes_itself_witness:
  "manifest (snd (update_models_json (str ''/app'') example_world)) (models_dir (str ''/app''))
     = Some (json_dump (csv_files example_world (models_dir (str ''/app''))) 2)
   \<and> str ''models.json'' \<in> set (scandir_names example_world (models_dir (str ''/app'')))
   \<and> str ''models.json'' \<notin> set (csv_files example_world (models_dir (str ''/app'')))"
proof -
  obtain w' where r: "update_models_json (str ''/app'') example_world = (Inr True, w')"
    by (rule example_run_outcome)
  note t = manifest_excludes_itself [OF r, unfolded Let_def]
  have a: "manifest (snd (update_models_json (str ''/app'') example_world)) (models_dir (str ''/app''))
     = Some (json_dump (csv_files example_world (models_dir (str ''/app''))) 2)"
    using t [THEN conjunct1] unfolding r by simp
  have b: "str ''models.json'' \<in> set (scandir_names example_world (models_dir (str ''/app'')))"
    unfolding models_dir_app example_world_def scandir_names_plain by simp
  have c: "str ''models.json'' \<notin> set (csv_files example_world (models_dir (str ''/app'')))"
    using t [THEN conjunct2, THEN conjunct1] .
  show ?thesis using a b c by (intro conjI)
qed

text \<open>
  C10: a name that begins with a dot is skipped by \<open>glob\<close> for the pattern \<open>*.csv\<close> and so
  is never in the list for the manifest, in whatever world with well-formed listings,
  even when the name ends in \<open>.csv\<close>; the manifest of a run that returns \<open>True\<close> is the
  serialisation of that list. The name \<open>.hidden.csv\<close> is such a name: it ends in
  \<open>.csv\<close>, \<open>glob\<close> finds nothing in a listing of just this name, and where no
  directory lists another name the list for the manifest is empty.
\<close>

theorem hidden_csv_omitted:
  assumes "wf_world w" and "ishidden n"
  shows "n \<notin> set (glob1 names (str ''*.csv''))
    \<and> n \<notin> set (csv_files w (models_dir script_dir))
    \<and> (\<forall>w'. update_models_json script_dir w = (Inr True, w') \<longrightarrow>
          manifest w' (models_dir script_dir)
            = Some (json_dump (csv_files w (models_dir script_dir)) 2))
    \<and> endswith (str ''.hidden.csv'') (str ''.csv'')
    \<and> glob1 [str ''.hidden.csv''] (str ''*.csv'') = []
    \<and> ((\<forall>p. set (scandir_names w p) \<subseteq> {str ''.hidden.csv''}) \<longrightarrow>
          csv_files w (models_dir script_dir) = [])"
proof -
  have g: "n \<notin> set (glob1 names (str ''*.csv''))"
    unfolding glob1_csv set_filter using assms(2) by blast
  have b: "n \<notin> set (csv_files w (models_dir script_dir))"
    using assms by (rule hidden_not_collected)
  have m: "\<forall>w'. update_models_json script_dir w = (Inr True, w') \<longrightarrow>
          manifest w' (models_dir script_dir)
            = Some (json_dump (csv_files w (models_dir script_dir)) 2)"
    using run_True_manifest by blast
  have c: "endswith (str ''.hidden.csv'') (str ''.csv'')" by (simp add: endswith_def)
  have h: "ishidden (str ''.hidden.csv'')" by (simp add: dot_def)
  have d: "glob1 [str ''.hidden.csv''] (str ''*.csv'') = []"
    unfolding glob1_csv filter_empty_conv using h by simp
  have e: "(\<forall>p. set (scandir_names w p) \<subseteq> {str ''.hidden.csv''}) \<longrightarrow>
          csv_files w (models_dir script_dir) = []"
  proof
    assume only: "\<forall>p. set (scandir_names w p) \<subseteq> {str ''.hidden.csv''}"
    have "set (csv_files w (models_dir script_dir)) = {}"
    proof (rule equals0I)
      fix f
      assume "f \<in> set (csv_files w (models_dir script_dir))"
      then obtain d k where k: "\<not> ishidden k" "k \<in> set (scandir_names w d)"
        using csv_files_from_names by blast
      then have "k = str ''.hidden.csv''" using only by blast
      then show False using k(1) h by simp
    qed
    then show "csv_files w (models_dir script_dir) = []" by (simp only: set_empty)
  qed
  show ?thesis using g b m c d e by (intro conjI)
qed

theorem hidden_csv_omitted_witness:
  "manifest (snd (update_models_json (str ''/app'') hidden_world)) (models_dir (str ''/app''))
     = Some (json_dump [str ''a.csv''] 2)
   \<and> endswith (str ''.hidden.csv'') (str ''.csv'')
   \<and> str ''.hidden.csv'' \<in> set (scandir_names hidden_world (models_dir (str ''/app'')))
   \<and> str ''.hidden.csv'' \<notin> set (csv_files hidden_world (models_dir (str ''/app'')))"
proof -
  let ?files = "[(str ''.hidden.csv'', []), (str ''a.csv'', [])] :: (pystr \<times> bytes) list"
  have sf: "\<forall>n \<in> set (map fst ?files). sep \<notin> set n" by (simp add: sep_def)
  have as: "\<forall>n \<in> set (map fst ?files). \<forall>c \<in> set n. c < 128" by simp
  have wfd: "wf_dir (plain_dir ?files)"
    by (simp add: wf_dir_def plain_dir_def sep_def)
  have wf: "wf_world hidden_world"
    unfolding hidden_world_def using wfd by (rule wf_world_only_at)
  have h: "ishidden (str ''.hidden.csv'')" by (simp add: dot_def)
  have L: "csv_files hidden_world (models_dir (str ''/app'')) = [str ''a.csv'']"
    unfolding hidden_world_def plain_csv_files [OF sf] by (simp add: dot_def endswith_def)
  have "fst (update_models_json (str ''/app'') hidden_world) = Inr True"
    unfolding hidden_world_def using sf as by (rule plain_run)
  then obtain w' where r: "update_models_json (str ''/app'') hidden_world = (Inr True, w')"
    by (cases "update_models_json (str ''/app'') hidden_world") auto
  note t = hidden_csv_omitted [OF wf h, of _ "str ''/app''"]
  have "manifest w' (models_dir (str ''/app''))
      = Some (json_dump (csv_files hidden_world (models_dir (str ''/app''))) 2)"
    using t [THEN conjunct2, THEN conjunct2, THEN conjunct1] r by blast
  then have a: "manifest (snd (update_models_json (str ''/app'') hidden_world))
      (models_dir (str ''/app'')) = Some (json_dump [str ''a.csv''] 2)"
    unfolding r L by simp
  have b: "str ''.hidden.csv'' \<notin> set (csv_files hidden_world (models_dir (str ''/app'')))"
    using t [THEN conjunct2, THEN conjunct1] .
  have c: "endswith (str ''.hidden.csv'') (str ''.csv'')"
    using t [THEN conjunct2, THEN conjunct2, THEN conjunct2, THEN conjunct1] .
  have d: "str ''.hidden.csv'' \<in> set (scandir_names hidden_world (models_dir (str ''/app'')))"
    unfolding models_dir_app hidden_world_def scandir_names_plain by simp
  show ?thesis using a c d b by (intro conjI)
qed

lemma print_keeps:
  "\<exists>out. snd (print w line) = w\<lparr>stdout := out\<rparr>"
proof (cases rule: print_outcome [of w line])
  case ok
  then show ?thesis by (intro exI [of _ "stdout w @ [line]"]) simp
next
  case (raised e)
  then show ?thesis by (intro exI [of _ "stdout w"]) simp
qed

lemma write_manifest_keeps:
  "\<exists>fs. snd (write_manifest w jf files) = w\<lparr>filesystem := fs\<rparr>"
proof -
  have p: "\<exists>fs. put_entry w p d n e = w\<lparr>filesystem := fs\<rparr>" for w p d n e
    unfolding put_entry_def by blast
  have i: "\<exists>fs. w = w\<lparr>filesystem := fs\<rparr>" for w :: world
    by (rule exI [of _ "filesystem w"]) simp
  have o: "\<exists>fs. snd (open_w w jf) = w\<lparr>filesystem := fs\<rparr>"
    unfolding open_w_def using p i
    by (auto split: prod.splits node.splits option.splits entry.splits)
  have s: "\<exists>fs. set_content w jf bs = w\<lparr>filesystem := fs\<rparr>" for w bs
    unfolding set_content_def using p i
    by (auto split: prod.splits node.splits option.splits entry.splits)
  have c: "\<exists>fs. snd (write_close w jf bs) = w\<lparr>filesystem := fs\<rparr>" for w bs
    unfolding write_close_def using s by (cases "write_fault w") simp_all
  obtain r w1 where ow: "open_w w jf = (r, w1)" by (cases "open_w w jf")
  obtain f1 where f1: "w1 = w\<lparr>filesystem := f1\<rparr>" using o ow by auto
  show ?thesis
  proof (cases r)
    case (Inl e)
    then show ?thesis using ow f1 by (auto simp: write_manifest_def)
  next
    case (Inr u)
    show ?thesis
    proof (cases "encode (encoding w1) (json_dump files 2)")
      case (Inl e)
      then show ?thesis using ow f1 Inr by (auto simp: write_manifest_def)
    next
      case (Inr bs)
      obtain f2 where "snd (write_close w1 jf bs) = w1\<lparr>filesystem := f2\<rparr>" using c by blast
      then have "snd (write_manifest w jf files) = w\<lparr>filesystem := f2\<rparr>"
        using ow \<open>r = Inr u\<close> Inr unfolding f1 by (simp add: write_manifest_def)
      then show ?thesis by blast
    qed
  qed
qed

lemma run_keeps:
  "\<exists>fs out. snd (update_models_json script_dir w) = w\<lparr>filesystem := fs, stdout := out\<rparr>"
proof -
  have i: "w = w\<lparr>filesystem := filesystem w, stdout := stdout w\<rparr>" by simp
  show ?thesis
  proof (cases "filesystem w (models_dir script_dir) = Missing")
    case True
    show ?thesis
    proof (cases "encodable (stdout_encoding w) script_dir \<and> \<not> stdout_fault w (length (stdout w))")
      case True
      have "snd (update_models_json script_dir w) = w\<lparr>filesystem := filesystem w,
          stdout := stdout w @ [str ''Error: Models directory not found at '' @ models_dir script_dir]\<rparr>"
        using run_missing_ok [OF \<open>filesystem w (models_dir script_dir) = Missing\<close>] True by simp
      then show ?thesis by blast
    next
      case False
      then have "snd (update_models_json script_dir w) = w"
        using run_missing_raise [OF \<open>filesystem w (models_dir script_dir) = Missing\<close>] by auto
      then show ?thesis using i by metis
    qed
  next
    case False
    let ?s = "str ''Scanning for CSV files in '' @ models_dir script_dir @ str ''...''"
    let ?jf = "path_join (models_dir script_dir) [str ''models.json'']"
    obtain r1 w0 where p0: "print w ?s = (r1, w0)" by (cases "print w ?s")
    obtain o1 where o1: "w0 = w\<lparr>stdout := o1\<rparr>" using print_keeps [of w ?s] p0 by auto
    define w1 where "w1 = w\<lparr>stdout := o1\<rparr>"
    have p1: "print w ?s = (r1, w1)" using p0 unfolding o1 w1_def .
    show ?thesis
    proof (cases r1)
      case (Inl e)
      then have "snd (update_models_json script_dir w) = w\<lparr>filesystem := filesystem w, stdout := o1\<rparr>"
        unfolding run_present [OF False] p1 by (simp add: w1_def)
      then show ?thesis by blast
    next
      case (Inr u)
      let ?fs = "csv_files w1 (models_dir script_dir)"
      obtain r2 w2 where p2: "write_manifest w1 ?jf ?fs = (r2, w2)"
        by (cases "write_manifest w1 ?jf ?fs")
      obtain f2 where f2: "w2 = w1\<lparr>filesystem := f2\<rparr>"
        using write_manifest_keeps [of w1 ?jf ?fs] p2 by auto
      show ?thesis
      proof (cases r2)
        case (Inl e)
        then have "snd (update_models_json script_dir w) = w2"
          unfolding run_present [OF False] p1 \<open>r1 = Inr u\<close> prod.case sum.case p2 by simp
        then have "snd (update_models_json script_dir w) = w\<lparr>filesystem := f2, stdout := o1\<rparr>"
          unfolding f2 w1_def by simp
        then show ?thesis by blast
      next
        case r2: (Inr u2)
        obtain o3 where "snd (report w2 ?jf ?fs) = w2\<lparr>stdout := o3\<rparr>"
          using report_stdout by blast
        moreover have "snd (update_models_json script_dir w) = snd (report w2 ?jf ?fs)"
          unfolding run_present [OF False] p1 \<open>r1 = Inr u\<close> prod.case sum.case p2 r2 by simp
        ultimately have "snd (update_models_json script_dir w) = w\<lparr>filesystem := f2, stdout := o3\<rparr>"
          unfolding f2 w1_def by simp
        then show ?thesis by blast
      qed
    qed
  qed
qed











lemma scandir_names_readable:
  assumes "filesystem w p = Directory d" and "readable d"
  shows "scandir_names w p = map fst (entries d)"
  using assms by (simp add: scandir_names_def)



lemma csv_files_none:
  assumes "\<not> has_magic (models_dir script_dir)"
    and "\<forall>n \<in> set (scandir_names w (models_dir script_dir)). \<not> endswith n (str ''.csv'')"
  shows "csv_files w (models_dir script_dir) = []"
proof -
  have "filter (\<lambda>n. \<not> ishidden n \<and> endswith n (str ''.csv''))
      (scandir_names w (models_dir script_dir)) = []"
    using assms(2) unfolding filter_empty_conv by blast
  then show ?thesis unfolding csv_files_plain [OF assms(1)] by simp
qed





lemma json_dump_empty: "json_dump [] 2 = str ''[]''"
  by (simp add: json_dump_def iterencode_list_def)




section \<open>Order\<close>

lemma cp_le_iff: "cp_le xs ys \<longleftrightarrow> xs \<le> ys"
  by (induction xs ys rule: cp_le.induct) simp_all

lemma sorted_position:
  fixes L :: "pystr list"
  assumes "sorted L" and "i < length L" and "j < length L" and "L ! i < L ! j"
  shows "i < j"
proof (rule ccontr)
  assume "\<not> i < j"
  then have "j \<le> i" by simp
  then have "L ! j \<le> L ! i" using assms(1,2) by (simp add: sorted_iff_nth_mono)
  then show False using assms(4) by simp
qed

lemma csv_files_member:
  assumes "\<not> has_magic (models_dir script_dir)"
    and "n \<in> set (scandir_names w (models_dir script_dir))"
    and "\<not> ishidden n" and "endswith n (str ''.csv'')" and "sep \<notin> set n"
  shows "n \<in> set (csv_files w (models_dir script_dir))"
proof -
  let ?g = "filter (\<lambda>n. \<not> ishidden n \<and> endswith n (str ''.csv''))
      (scandir_names w (models_dir script_dir))"
  have g: "n \<in> set ?g" using assms(2-4) by simp
  have bn: "basename n = n" using assms(5) by (rule basename_sep_free)
  have "basename n \<in> basename ` set ?g" using g by (rule imageI)
  then have m: "n \<in> set (map basename ?g)" unfolding bn set_map .
  have ne: "n \<noteq> str ''models.json''" using assms(4) by (rule csv_not_manifest)
  have "n \<in> {x \<in> set (map basename ?g). x \<noteq> str ''models.json''}"
    using m ne by blast
  then show ?thesis unfolding csv_files_plain [OF assms(1)] set_sort set_filter .
qed

lemma iterencode_items_same:
  "iterencode_items s s vs = concat (map (\<lambda>x. s @ py_encode_basestring_ascii x) vs)"
  by (induction vs) simp_all

lemma join_with_map:
  "join_with s (map f (v # vs)) = f v @ concat (map (\<lambda>x. s @ f x) vs)"
  by (induction vs arbitrary: v) simp_all

lemma json_dump_pretty:
  "json_dump xs 2 = pretty_array_2 (map py_encode_basestring_ascii xs)"
proof (cases xs)
  case Nil
  then show ?thesis by (simp add: json_dump_def iterencode_list_def pretty_array_2_def)
next
  case (Cons v vs)
  have r: "replicate 2 (32::nat) = [32, 32]" by (simp add: numeral_2_eq_2)
  have m: "map (\<lambda>x. str ''  '' @ x) (map py_encode_basestring_ascii (v # vs))
      = map (\<lambda>x. str ''  '' @ py_encode_basestring_ascii x) (v # vs)"
    by (simp add: comp_def)
  have "json_dump (v # vs) 2 = pretty_array_2 (map py_encode_basestring_ascii (v # vs))"
    unfolding json_dump_def iterencode_list_def pretty_array_2_def Let_def m join_with_map r
    by (simp add: iterencode_items_same)
  then show ?thesis using Cons by simp
qed

lemma unlisted_run:
  assumes "filesystem w (models_dir (str ''/app'')) = Directory d" and "\<not> readable d"
    and "case map_of (entries d) (str ''models.json'') of
           Some (File content may_write) \<Rightarrow> may_write
         | Some Subdirectory \<Rightarrow> False
         | None \<Rightarrow> writable d"
    and "w = plain_world fs"
  shows "csv_files w (models_dir (str ''/app'')) = []"
    and "fst (update_models_json (str ''/app'') w) = Inr True"
proof -
  have nm: "\<not> has_magic (models_dir (str ''/app''))"
    unfolding models_dir_app by (rule app_models_plain)
  have n: "scandir_names w (models_dir (str ''/app'')) = []"
    using assms(1,2) by (simp add: scandir_names_def)
  show L: "csv_files w (models_dir (str ''/app'')) = []"
    using nm by (rule csv_files_none) (unfold n, simp)
  have "encodable UTF_8 (str ''/app'')" by (rule encodable_ascii) simp
  then have c: "console_accepts w (str ''/app'')"
    unfolding console_accepts_def L unfolding assms(4) plain_world_simps by simp
  have "can_write_manifest w (models_dir (str ''/app''))"
    unfolding can_write_manifest_def assms(1) node.case
    using assms(3) unfolding assms(4) plain_world_simps by simp
  with c show "fst (update_models_json (str ''/app'') w) = Inr True" by (rule run_success)
qed

text \<open>
  C4 as stated fails: the directory holds both \<open>Model2.csv\<close> and \<open>model1.csv\<close>, but the
  process may not list it (it may search it and write to it). \<open>glob\<close> swallows the error
  of the listing and returns nothing, the run returns \<open>True\<close>, and the manifest is the
  empty array, with neither name in it.
\<close>

theorem manifest_order_counterexample:
  "filesystem unlisted_models_world (models_dir (str ''/app''))
     = Directory \<lparr>entries = [(str ''model1.csv'', File [] True), (str ''Model2.csv'', File [] True)],
                  readable = False, writable = True\<rparr>
   \<and> fst (update_models_json (str ''/app'') unlisted_models_world) = Inr True
   \<and> csv_files unlisted_models_world (models_dir (str ''/app'')) = []
   \<and> manifest (snd (update_models_json (str ''/app'') unlisted_models_world))
        (models_dir (str ''/app'')) = Some (str ''[]'')"
proof -
  let ?d = "\<lparr>entries = [(str ''model1.csv'', File [] True), (str ''Model2.csv'', File [] True)],
                  readable = False, writable = True\<rparr>"
  have fs: "filesystem unlisted_models_world (models_dir (str ''/app'')) = Directory ?d"
    unfolding models_dir_app unlisted_models_world_def plain_world_simps only_at_simps
    by (simp add: plain_dir_def)
  have p: "unlisted_models_world = plain_world (only_at app_models
       ((plain_dir [(str ''model1.csv'', []), (str ''Model2.csv'', [])])\<lparr>readable := False\<rparr>))"
    by (rule unlisted_models_world_def)
  have L: "csv_files unlisted_models_world (models_dir (str ''/app'')) = []"
    and r: "fst (update_models_json (str ''/app'') unlisted_models_world) = Inr True"
    using fs _ _ p by (rule unlisted_run; simp)+
  obtain w' where w': "update_models_json (str ''/app'') unlisted_models_world = (Inr True, w')"
    using r by (cases "update_models_json (str ''/app'') unlisted_models_world") auto
  have "manifest w' (models_dir (str ''/app'')) = Some (str ''[]'')"
    using run_True_manifest [OF w'] unfolding L json_dump_empty .
  then have m: "manifest (snd (update_models_json (str ''/app'') unlisted_models_world))
        (models_dir (str ''/app'')) = Some (str ''[]'')"
    unfolding w' snd_conv .
  show ?thesis using fs r L m by (intro conjI)
qed

text \<open>
  C4, amended: after every run that returns \<open>True\<close> the manifest is the pretty-printed
  array of the JSON strings of the list \<open>L\<close> that the script sorted, in the order of \<open>L\<close>.
  Of any two positions of \<open>L\<close> the earlier one holds the name that is less or equal under
  \<open>cp_le\<close>, which compares code point by code point and so tells upper case from lower
  case; wherever \<open>Model2.csv\<close> and \<open>model1.csv\<close> stand in \<open>L\<close>, \<open>Model2.csv\<close> stands
  before \<open>model1.csv\<close>. Both names are in \<open>L\<close> when the directory holds both, the process
  may list it, and its path has none of the characters \<open>*\<close>, \<open>?\<close> and \<open>[\<close>.
\<close>

theorem manifest_order:
  assumes "update_models_json script_dir w = (Inr True, w')"
  shows "let L = csv_files w (models_dir script_dir) in
    manifest w' (models_dir script_dir)
      = Some (pretty_array_2 (map py_encode_basestring_ascii L))
    \<and> (\<forall>i j. i < j \<and> j < length L \<longrightarrow> cp_le (L ! i) (L ! j))
    \<and> (\<forall>i j. i < length L \<and> j < length L
          \<and> L ! i = str ''Model2.csv'' \<and> L ! j = str ''model1.csv'' \<longrightarrow> i < j)
    \<and> (\<forall>d. \<not> has_magic (models_dir script_dir)
          \<and> filesystem w (models_dir script_dir) = Directory d \<and> readable d
          \<and> str ''Model2.csv'' \<in> set (map fst (entries d))
          \<and> str ''model1.csv'' \<in> set (map fst (entries d)) \<longrightarrow>
            str ''Model2.csv'' \<in> set L \<and> str ''model1.csv'' \<in> set L)"
proof -
  let ?m = "models_dir script_dir"
  let ?L = "csv_files w ?m"
  have s: "sorted ?L" by (rule csv_files_sorted)
  have a: "manifest w' ?m = Some (pretty_array_2 (map py_encode_basestring_ascii ?L))"
    using run_True_manifest [OF assms] unfolding json_dump_pretty .
  have b: "\<forall>i j. i < j \<and> j < length ?L \<longrightarrow> cp_le (?L ! i) (?L ! j)"
    using s unfolding cp_le_iff by (simp add: sorted_iff_nth_mono)
  have lt: "str ''Model2.csv'' < str ''model1.csv''" by simp
  have e: "\<forall>i j. i < length ?L \<and> j < length ?L
      \<and> ?L ! i = str ''Model2.csv'' \<and> ?L ! j = str ''model1.csv'' \<longrightarrow> i < j"
  proof (intro allI impI)
    fix i j
    assume h: "i < length ?L \<and> j < length ?L
      \<and> ?L ! i = str ''Model2.csv'' \<and> ?L ! j = str ''model1.csv''"
    then have "?L ! i < ?L ! j" using lt by (simp only:)
    moreover have "i < length ?L" and "j < length ?L" using h by blast+
    ultimately show "i < j" using s by (intro sorted_position [of ?L i j])
  qed
  have f: "\<forall>d. \<not> has_magic ?m \<and> filesystem w ?m = Directory d \<and> readable d
          \<and> str ''Model2.csv'' \<in> set (map fst (entries d))
          \<and> str ''model1.csv'' \<in> set (map fst (entries d)) \<longrightarrow>
            str ''Model2.csv'' \<in> set ?L \<and> str ''model1.csv'' \<in> set ?L"
  proof (intro allI impI)
    fix d
    assume h: "\<not> has_magic ?m \<and> filesystem w ?m = Directory d \<and> readable d
          \<and> str ''Model2.csv'' \<in> set (map fst (entries d))
          \<and> str ''model1.csv'' \<in> set (map fst (entries d))"
    then have nm: "\<not> has_magic ?m" and fs: "filesystem w ?m = Directory d" and rd: "readable d"
      and m2: "str ''Model2.csv'' \<in> set (map fst (entries d))"
      and m1: "str ''model1.csv'' \<in> set (map fst (entries d))"
      by blast+
    have n: "scandir_names w ?m = map fst (entries d)" using fs rd by (rule scandir_names_readable)
    have s2: "str ''Model2.csv'' \<in> set (scandir_names w ?m)" unfolding n by (rule m2)
    have s1: "str ''model1.csv'' \<in> set (scandir_names w ?m)" unfolding n by (rule m1)
    have c2: "str ''Model2.csv'' \<in> set ?L"
      using nm s2 by (rule csv_files_member) (simp_all add: dot_def endswith_def sep_def)
    have c1: "str ''model1.csv'' \<in> set ?L"
      using nm s1 by (rule csv_files_member) (simp_all add: dot_def endswith_def sep_def)
    show "str ''Model2.csv'' \<in> set ?L \<and> str ''model1.csv'' \<in> set ?L"
      using c2 c1 by (rule conjI)
  qed
  show ?thesis unfolding Let_def using a b e f by (intro conjI)
qed

theorem manifest_order_witness:
  "manifest (snd (update_models_json (str ''/app'') models_world)) (models_dir (str ''/app''))
     = Some (pretty_array_2 [34 # str ''Model2.csv'' @ [34], 34 # str ''model1.csv'' @ [34]])
   \<and> csv_files models_world (models_dir (str ''/app'')) = [str ''Model2.csv'', str ''model1.csv'']
   \<and> cp_le (str ''Model2.csv'') (str ''model1.csv'')
   \<and> \<not> cp_le (str ''model1.csv'') (str ''Model2.csv'')"
proof -
  let ?files = "[(str ''model1.csv'', []), (str ''Model2.csv'', [])] :: (pystr \<times> bytes) list"
  have sf: "\<forall>n \<in> set (map fst ?files). sep \<notin> set n" by (simp add: sep_def)
  have L: "csv_files models_world (models_dir (str ''/app''))
      = [str ''Model2.csv'', str ''model1.csv'']"
    using plain_csv_files [OF sf] unfolding models_world_def by (simp add: dot_def endswith_def)
  have "fst (update_models_json (str ''/app'') models_world) = Inr True"
    unfolding models_world_def by (rule plain_run) (simp_all add: sep_def)
  then obtain w' where r: "update_models_json (str ''/app'') models_world = (Inr True, w')"
    by (cases "update_models_json (str ''/app'') models_world") auto
  have e2: "py_encode_basestring_ascii (str ''Model2.csv'') = 34 # str ''Model2.csv'' @ [34]"
    by (simp add: py_encode_basestring_ascii_def ESCAPE_ASCII_def)
  have e1: "py_encode_basestring_ascii (str ''model1.csv'') = 34 # str ''model1.csv'' @ [34]"
    by (simp add: py_encode_basestring_ascii_def ESCAPE_ASCII_def)
  have mp: "map py_encode_basestring_ascii [str ''Model2.csv'', str ''model1.csv'']
      = [34 # str ''Model2.csv'' @ [34], 34 # str ''model1.csv'' @ [34]]"
    using e1 e2 by simp
  have "manifest w' (models_dir (str ''/app''))
      = Some (pretty_array_2 (map py_encode_basestring_ascii
          (csv_files models_world (models_dir (str ''/app'')))))"
    using manifest_order [OF r] unfolding Let_def by (rule conjunct1)
  then have a: "manifest (snd (update_models_json (str ''/app'') models_world))
      (models_dir (str ''/app''))
     = Some (pretty_array_2 [34 # str ''Model2.csv'' @ [34], 34 # str ''model1.csv'' @ [34]])"
    unfolding r snd_conv L mp .
  have b: "cp_le (str ''Model2.csv'') (str ''model1.csv'')"
    and c: "\<not> cp_le (str ''model1.csv'') (str ''Model2.csv'')" by simp_all
  show ?thesis using a L b c by (intro conjI)
qed

section \<open>A second run\<close>

lemma manifest_filesystem: "filesystem a = filesystem b \<Longrightarrow> manifest a p = manifest b p"
  by (simp add: manifest_def)

lemma scandir_names_filesystem:
  "filesystem a = filesystem b \<Longrightarrow> scandir_names a p = scandir_names b p"
  by (simp add: scandir_names_def)

lemma can_write_manifest_filesystem:
  assumes "filesystem a = filesystem b" and "open_fault a = open_fault b"
    and "write_fault a = write_fault b"
  shows "can_write_manifest a p = can_write_manifest b p"
  using assms by (simp add: can_write_manifest_def)

lemma write_manifest_can_True:
  assumes "can_write_manifest w (models_dir script_dir)"
  shows "\<exists>d. filesystem w (models_dir script_dir) = Directory d
    \<and> write_manifest w (path_join (models_dir script_dir) [str ''models.json'']) files
        = (Inr (), put_entry w (models_dir script_dir) d (str ''models.json'')
                     (File (json_dump files 2) True))"
proof -
  define M where "M = str ''models.json''"
  define p where "p = models_dir script_dir"
  define jf where "jf = path_join p [M]"
  have sp: "path_split jf = (p, M)" unfolding jf_def p_def M_def by (rule manifest_split)
  have cw: "\<not> open_fault w" "write_fault w = None"
    using assms by (simp_all add: can_write_manifest_def)
  obtain d where d: "filesystem w p = Directory d"
    using assms unfolding can_write_manifest_def p_def
    by (cases "filesystem w (models_dir script_dir)") simp_all
  have slot: "case map_of (entries d) M of Some (File content may_write) \<Rightarrow> may_write
      | Some Subdirectory \<Rightarrow> False | None \<Rightarrow> writable d"
    using assms d unfolding can_write_manifest_def p_def M_def by simp
  have o: "open_w w jf = (Inr (), put_entry w p d M (File [] True))"
  proof (cases "map_of (entries d) M")
    case None
    then show ?thesis using slot cw d unfolding open_w_outcome [OF sp] by simp
  next
    case (Some e)
    show ?thesis
    proof (cases e)
      case (File c m)
      then have "m" using slot Some by simp
      then show ?thesis using File slot cw d Some unfolding open_w_outcome [OF sp] by simp
    next
      case Subdirectory
      then show ?thesis using slot Some by simp
    qed
  qed
  have wf: "write_fault (put_entry w p d M (File [] True)) = None"
    using cw(2) by (simp add: put_entry_def)
  have "write_manifest w jf files = (Inr (), put_entry w p d M (File (json_dump files 2) True))"
    unfolding write_manifest_def o prod.case sum.case encode_json_dump write_close_def wf
      option.case set_content_after_open [OF sp] ..
  then show ?thesis using d unfolding jf_def p_def M_def by blast
qed

lemma run_True_entry:
  assumes "update_models_json script_dir w = (Inr True, w')"
  shows "\<exists>d out. filesystem w (models_dir script_dir) = Directory d
          \<and> w' = (put_entry w (models_dir script_dir) d (str ''models.json'')
                    (File (json_dump (csv_files w (models_dir script_dir)) 2) True))
                  \<lparr>stdout := out\<rparr>"
proof -
  define jf where "jf = path_join (models_dir script_dir) [str ''models.json'']"
  let ?s = "str ''Scanning for CSV files in '' @ models_dir script_dir @ str ''...''"
  have can: "can_write_manifest w (models_dir script_dir)"
    using run_True [OF assms] by (rule conjunct1)
  then have ex: "filesystem w (models_dir script_dir) \<noteq> Missing"
    by (auto simp: can_write_manifest_def)
  note r = assms [unfolded run_present [OF ex], folded jf_def]
  show ?thesis
  proof (cases rule: print_outcome [of w ?s])
    case (raised e)
    then show ?thesis using r by simp
  next
    case ok
    let ?w1 = "w\<lparr>stdout := stdout w @ [?s]\<rparr>"
    let ?fs = "csv_files w (models_dir script_dir)"
    have can1: "can_write_manifest ?w1 (models_dir script_dir)"
      unfolding can_write_manifest_stdout using can .
    obtain d where d: "filesystem ?w1 (models_dir script_dir) = Directory d"
      and w2: "write_manifest ?w1 jf ?fs
        = (Inr (), put_entry ?w1 (models_dir script_dir) d (str ''models.json'')
                     (File (json_dump ?fs 2) True))"
      using write_manifest_can_True [OF can1, of ?fs] unfolding jf_def by blast
    let ?w2 = "put_entry ?w1 (models_dir script_dir) d (str ''models.json'')
                     (File (json_dump ?fs 2) True)"
    have rep: "report ?w2 jf ?fs = (Inr True, w')"
      using r unfolding ok(3) prod.case sum.case csv_files_stdout w2 .
    obtain out where "snd (report ?w2 jf ?fs) = ?w2\<lparr>stdout := out\<rparr>"
      using report_stdout by blast
    then have "w' = ?w2\<lparr>stdout := out\<rparr>" using rep by simp
    then have "w' = (put_entry w (models_dir script_dir) d (str ''models.json'')
                     (File (json_dump ?fs 2) True))\<lparr>stdout := out\<rparr>"
      unfolding put_entry_stdout .
    moreover have "filesystem w (models_dir script_dir) = Directory d" using d by simp
    ultimately show ?thesis by blast
  qed
qed

lemma glob1_after_write:
  assumes "filesystem w p = Directory d"
  shows "glob1 (scandir_names (put_entry w p d (str ''models.json'') e) q) (str ''*.csv'')
    = glob1 (scandir_names w q) (str ''*.csv'')"
proof -
  define M where "M = str ''models.json''"
  define P where "P = (\<lambda>n. \<not> ishidden n \<and> endswith n (str ''.csv''))"
  have nM: "\<not> P M" unfolding M_def P_def by (simp add: endswith_def)
  have "filter P (scandir_names (put_entry w p d M e) q) = filter P (scandir_names w q)"
  proof (cases "q = p \<and> readable d")
    case False
    then show ?thesis using assms by (auto simp: scandir_names_def filesystem_put_entry)
  next
    case True
    have a: "scandir_names (put_entry w p d M e) q = map fst (write_entry (entries d) M e)"
      using True by (simp add: scandir_names_def filesystem_put_entry)
    have b: "scandir_names w q = map fst (entries d)"
      using assms True by (simp add: scandir_names_def)
    show ?thesis
    proof (cases "M \<in> set (map fst (entries d))")
      case True
      show ?thesis unfolding a b map_fst_write_present [OF True] ..
    next
      case False
      show ?thesis unfolding a b map_fst_write_absent [OF False] using nM by simp
    qed
  qed
  then show ?thesis unfolding glob1_csv P_def M_def .
qed

lemma csv_files_same:
  assumes "glob_dirs a = glob_dirs b"
    and "\<And>q. glob1 (scandir_names a q) (str ''*.csv'') = glob1 (scandir_names b q) (str ''*.csv'')"
  shows "csv_files a (models_dir script_dir) = csv_files b (models_dir script_dir)"
  unfolding csv_files_def glob_glob_def pattern_split prod.case Let_def assms ..

lemma csv_files_after_run:
  assumes "update_models_json script_dir w = (Inr True, w1)"
    and "filesystem w2 = filesystem w1" and "glob_dirs w2 = glob_dirs w1"
  shows "csv_files w2 (models_dir script_dir) = csv_files w (models_dir script_dir)"
proof -
  let ?J = "json_dump (csv_files w (models_dir script_dir)) 2"
  obtain d out where d: "filesystem w (models_dir script_dir) = Directory d"
    and w1: "w1 = (put_entry w (models_dir script_dir) d (str ''models.json'') (File ?J True))
                  \<lparr>stdout := out\<rparr>"
    using run_True_entry [OF assms(1)] by blast
  have g: "glob_dirs w2 = glob_dirs w" unfolding assms(3) w1 by (simp add: put_entry_def)
  have s: "scandir_names w2 q
      = scandir_names (put_entry w (models_dir script_dir) d (str ''models.json'') (File ?J True)) q"
    for q
    using scandir_names_filesystem [OF assms(2), of q] unfolding w1 scandir_names_stdout .
  show ?thesis
  proof (rule csv_files_same [OF g])
    fix q
    show "glob1 (scandir_names w2 q) (str ''*.csv'') = glob1 (scandir_names w q) (str ''*.csv'')"
      unfolding s using d by (rule glob1_after_write)
  qed
qed

lemma run_manifest_total:
  assumes "filesystem w (models_dir script_dir) = Directory d"
    and "map_of (entries d) (str ''models.json'') = Some (File c mw)"
    and "write_fault w = None"
  shows "manifest (snd (update_models_json script_dir w)) (models_dir script_dir) = Some c
    \<or> manifest (snd (update_models_json script_dir w)) (models_dir script_dir)
        = Some (json_dump (csv_files w (models_dir script_dir)) 2)"
proof -
  define jf where "jf = path_join (models_dir script_dir) [str ''models.json'']"
  let ?s = "str ''Scanning for CSV files in '' @ models_dir script_dir @ str ''...''"
  let ?fs = "csv_files w (models_dir script_dir)"
  have m: "manifest w (models_dir script_dir) = Some c"
    unfolding manifest_def assms(1) node.case assms(2) by simp
  have ex: "filesystem w (models_dir script_dir) \<noteq> Missing" using assms(1) by simp
  have sp: "path_split jf = (models_dir script_dir, str ''models.json'')"
    unfolding jf_def by (rule manifest_split)
  show ?thesis
  proof (cases rule: print_outcome [of w ?s])
    case (raised e)
    then have "snd (update_models_json script_dir w) = w" unfolding run_present [OF ex] by simp
    then show ?thesis using m by simp
  next
    case ok
    let ?w1 = "w\<lparr>stdout := stdout w @ [?s]\<rparr>"
    have m1: "manifest ?w1 (models_dir script_dir) = Some c" unfolding manifest_stdout by (rule m)
    have fs1: "filesystem ?w1 (models_dir script_dir) = Directory d" using assms(1) by simp
    show ?thesis
    proof (cases "open_fault w \<or> \<not> mw")
      case True
      then have "\<exists>e. open_w ?w1 jf = (Inl e, ?w1)"
        unfolding open_w_outcome [OF sp] fs1 node.case assms(2) by auto
      then obtain e where "open_w ?w1 jf = (Inl e, ?w1)" ..
      then have "write_manifest ?w1 jf ?fs = (Inl e, ?w1)" by (simp add: write_manifest_def)
      then have "snd (update_models_json script_dir w) = ?w1"
        unfolding run_present [OF ex] ok(3) prod.case sum.case csv_files_stdout jf_def by simp
      then show ?thesis using m1 by simp
    next
      case False
      then have "can_write_manifest ?w1 (models_dir script_dir)"
        unfolding can_write_manifest_def fs1 node.case assms(2) using assms(3) by simp
      then obtain d' mw' where w2: "write_manifest ?w1 jf ?fs
        = (Inr (), put_entry ?w1 (models_dir script_dir) d' (str ''models.json'')
                     (File (json_dump ?fs 2) mw'))"
        using write_manifest_can [of ?w1 script_dir ?fs] unfolding jf_def by blast
      let ?w2 = "put_entry ?w1 (models_dir script_dir) d' (str ''models.json'')
                     (File (json_dump ?fs 2) mw')"
      obtain out where o: "snd (report ?w2 jf ?fs) = ?w2\<lparr>stdout := out\<rparr>"
        using report_stdout by blast
      have "snd (update_models_json script_dir w) = snd (report ?w2 jf ?fs)"
        unfolding run_present [OF ex] ok(3) prod.case sum.case csv_files_stdout
          w2 [unfolded jf_def] jf_def ..
      then have "manifest (snd (update_models_json script_dir w)) (models_dir script_dir)
          = Some (json_dump ?fs 2)"
        unfolding o by (simp only: manifest_stdout manifest_put_entry)
      then show ?thesis ..
    qed
  qed
qed

lemma csv_files_same_names:
  assumes "\<not> has_magic (models_dir script_dir)"
    and "filesystem a (models_dir script_dir) = Directory da" and "readable da" and "wf_dir da"
    and "filesystem b (models_dir script_dir) = Directory db" and "readable db" and "wf_dir db"
    and "{n \<in> set (map fst (entries da)). endswith n (str ''.csv'')}
       = {n \<in> set (map fst (entries db)). endswith n (str ''.csv'')}"
  shows "csv_files a (models_dir script_dir) = csv_files b (models_dir script_dir)"
proof -
  let ?P = "\<lambda>n. \<not> ishidden n \<and> endswith n (str ''.csv'')"
  have na: "scandir_names a (models_dir script_dir) = map fst (entries da)"
    using assms(2,3) by (rule scandir_names_readable)
  have nb: "scandir_names b (models_dir script_dir) = map fst (entries db)"
    using assms(5,6) by (rule scandir_names_readable)
  have sa: "\<forall>n \<in> set (scandir_names a (models_dir script_dir)). sep \<notin> set n"
    unfolding na using assms(4) by (simp add: wf_dir_def)
  have sb: "\<forall>n \<in> set (scandir_names b (models_dir script_dir)). sep \<notin> set n"
    unfolding nb using assms(7) by (simp add: wf_dir_def)
  have da: "distinct (map fst (entries da))" and db: "distinct (map fst (entries db))"
    using assms(4,7) by (simp_all add: wf_dir_def)
  have "set (filter ?P (map fst (entries da))) = set (filter ?P (map fst (entries db)))"
    unfolding set_filter using assms(8) by blast
  then have se: "set (sort (filter ?P (map fst (entries da))))
      = set (sort (filter ?P (map fst (entries db))))"
    unfolding set_sort .
  have "sort (filter ?P (map fst (entries da))) = sort (filter ?P (map fst (entries db)))"
  proof (rule sorted_distinct_set_unique)
    show "sorted (sort (filter ?P (map fst (entries da))))" by (rule sorted_sort)
    show "distinct (sort (filter ?P (map fst (entries da))))"
      using da by (simp only: distinct_sort distinct_filter)
    show "sorted (sort (filter ?P (map fst (entries db))))" by (rule sorted_sort)
    show "distinct (sort (filter ?P (map fst (entries db))))"
      using db by (simp only: distinct_sort distinct_filter)
    show "set (sort (filter ?P (map fst (entries da))))
      = set (sort (filter ?P (map fst (entries db))))" by (rule se)
  qed
  then show ?thesis
    unfolding csv_files_sep_free [OF assms(1) sa] csv_files_sep_free [OF assms(1) sb] na nb .
qed

lemma example_json_not_empty:
  "json_dump [str ''a.csv'', str ''b.csv'', str ''c.csv''] 2 \<noteq> str ''[]''"
  by (simp add: json_dump_def iterencode_list_def)

text \<open>
  C6 as stated fails: the written bytes are not a function of the set of file names in
  the directory. The two directories hold the same four files; the process may list the
  first and not the second (which it may search and write to). Both runs return \<open>True\<close>;
  the first manifest lists the three \<open>.csv\<close> names and the second is the empty array.
\<close>

theorem rerun_identical_counterexample:
  "filesystem example_world (models_dir (str ''/app''))
     = Directory (plain_dir [(str ''a.csv'', [49]), (str ''c.csv'', []), (str ''b.csv'', [50, 10]),
                    (str ''models.json'', str ''stale'')])
   \<and> filesystem unlisted_example_world (models_dir (str ''/app''))
     = Directory ((plain_dir [(str ''a.csv'', [49]), (str ''c.csv'', []), (str ''b.csv'', [50, 10]),
                    (str ''models.json'', str ''stale'')])\<lparr>readable := False\<rparr>)
   \<and> fst (update_models_json (str ''/app'') example_world) = Inr True
   \<and> fst (update_models_json (str ''/app'') unlisted_example_world) = Inr True
   \<and> manifest (snd (update_models_json (str ''/app'') example_world)) (models_dir (str ''/app''))
       = Some (json_dump [str ''a.csv'', str ''b.csv'', str ''c.csv''] 2)
   \<and> manifest (snd (update_models_json (str ''/app'') unlisted_example_world))
        (models_dir (str ''/app'')) = Some (str ''[]'')
   \<and> json_dump [str ''a.csv'', str ''b.csv'', str ''c.csv''] 2 \<noteq> str ''[]''"
proof -
  let ?files = "[(str ''a.csv'', [49]), (str ''c.csv'', []), (str ''b.csv'', [50, 10]),
      (str ''models.json'', str ''stale'')] :: (pystr \<times> bytes) list"
  let ?u = "unlisted_example_world"
  have fe: "filesystem example_world (models_dir (str ''/app'')) = Directory (plain_dir ?files)"
    unfolding models_dir_app example_world_def plain_world_simps only_at_simps ..
  have fu: "filesystem ?u (models_dir (str ''/app''))
      = Directory ((plain_dir ?files)\<lparr>readable := False\<rparr>)"
    unfolding models_dir_app unlisted_example_world_def plain_world_simps only_at_simps ..
  have p: "?u = plain_world (only_at app_models ((plain_dir ?files)\<lparr>readable := False\<rparr>))"
    by (rule unlisted_example_world_def)
  have nr: "\<not> readable ((plain_dir ?files)\<lparr>readable := False\<rparr>)" by simp
  have slot: "case map_of (entries ((plain_dir ?files)\<lparr>readable := False\<rparr>)) (str ''models.json'') of
           Some (File content may_write) \<Rightarrow> may_write
         | Some Subdirectory \<Rightarrow> False
         | None \<Rightarrow> writable ((plain_dir ?files)\<lparr>readable := False\<rparr>)"
    by (simp add: plain_dir_def)
  have Lu: "csv_files ?u (models_dir (str ''/app'')) = []"
    using fu nr slot p by (rule unlisted_run(1))
  have ru: "fst (update_models_json (str ''/app'') ?u) = Inr True"
    using fu nr slot p by (rule unlisted_run(2))
  obtain wu where wu: "update_models_json (str ''/app'') ?u = (Inr True, wu)"
    using ru by (cases "update_models_json (str ''/app'') ?u") auto
  have "manifest wu (models_dir (str ''/app'')) = Some (str ''[]'')"
    using run_True_manifest [OF wu] unfolding Lu json_dump_empty .
  then have mu: "manifest (snd (update_models_json (str ''/app'') ?u))
        (models_dir (str ''/app'')) = Some (str ''[]'')"
    unfolding wu snd_conv .
  obtain we where we: "update_models_json (str ''/app'') example_world = (Inr True, we)"
    by (rule example_run_outcome)
  have "manifest we (models_dir (str ''/app''))
      = Some (json_dump [str ''a.csv'', str ''b.csv'', str ''c.csv''] 2)"
    using run_True_manifest [OF we] unfolding example_csv_files .
  then have me: "manifest (snd (update_models_json (str ''/app'') example_world))
      (models_dir (str ''/app''))
       = Some (json_dump [str ''a.csv'', str ''b.csv'', str ''c.csv''] 2)"
    unfolding we snd_conv .
  show ?thesis using fe fu example_run ru me mu example_json_not_empty by (intro conjI)
qed

text \<open>
  C6, amended: let a run return \<open>True\<close>, and let a second run start on the disk that
  the first one left, with whatever console. The first run's writing of \<open>models.json\<close>
  does not change the list that the second run collects. If no error interrupts the
  writing of the file, the second run leaves the manifest with the bytes the first run
  wrote, whether it returns or raises; it returns \<open>True\<close> when the console accepts its
  lines and the file can be opened and written. The written bytes are a function of the
  set of \<open>.csv\<close> names among directories that the process may list, whose listings are
  well formed and whose path has none of the characters \<open>*\<close>, \<open>?\<close> and \<open>[\<close>: a run on any
  such directory with the same \<open>.csv\<close> names that returns \<open>True\<close> has written the same
  bytes.
\<close>

theorem rerun_identical:
  assumes "update_models_json script_dir w = (Inr True, w1)"
    and "filesystem w2 = filesystem w1" and "glob_dirs w2 = glob_dirs w1"
  shows "csv_files w2 (models_dir script_dir) = csv_files w (models_dir script_dir)
    \<and> (write_fault w2 = None \<longrightarrow>
          manifest (snd (update_models_json script_dir w2)) (models_dir script_dir)
            = manifest w1 (models_dir script_dir))
    \<and> (\<forall>w3. update_models_json script_dir w2 = (Inr True, w3) \<longrightarrow>
          manifest w3 (models_dir script_dir) = manifest w1 (models_dir script_dir))
    \<and> (console_accepts w2 script_dir \<and> \<not> open_fault w2 \<and> write_fault w2 = None \<longrightarrow>
          fst (update_models_json script_dir w2) = Inr True)
    \<and> (\<forall>v v' dw dv.
          \<not> has_magic (models_dir script_dir)
          \<and> filesystem w (models_dir script_dir) = Directory dw \<and> readable dw \<and> wf_dir dw
          \<and> filesystem v (models_dir script_dir) = Directory dv \<and> readable dv \<and> wf_dir dv
          \<and> {n \<in> set (map fst (entries dv)). endswith n (str ''.csv'')}
              = {n \<in> set (map fst (entries dw)). endswith n (str ''.csv'')}
          \<and> update_models_json script_dir v = (Inr True, v') \<longrightarrow>
            manifest v' (models_dir script_dir) = manifest w1 (models_dir script_dir))"
proof -
  let ?m = "models_dir script_dir"
  let ?J = "json_dump (csv_files w ?m) 2"
  obtain d out where d: "filesystem w ?m = Directory d"
    and w1: "w1 = (put_entry w ?m d (str ''models.json'') (File ?J True))\<lparr>stdout := out\<rparr>"
    using run_True_entry [OF assms(1)] by blast
  let ?d1 = "d\<lparr>entries := write_entry (entries d) (str ''models.json'') (File ?J True)\<rparr>"
  have m1: "manifest w1 ?m = Some ?J" using assms(1) by (rule run_True_manifest)
  have f2: "filesystem w2 ?m = Directory ?d1"
    unfolding assms(2) w1 by (simp add: filesystem_put_entry)
  have e2: "map_of (entries ?d1) (str ''models.json'') = Some (File ?J True)"
    by (simp add: map_of_write_entry)
  have a: "csv_files w2 ?m = csv_files w ?m" using assms by (rule csv_files_after_run)
  have b: "write_fault w2 = None \<longrightarrow>
      manifest (snd (update_models_json script_dir w2)) ?m = manifest w1 ?m"
  proof
    assume "write_fault w2 = None"
    with f2 e2 have "manifest (snd (update_models_json script_dir w2)) ?m = Some ?J
      \<or> manifest (snd (update_models_json script_dir w2)) ?m = Some (json_dump (csv_files w2 ?m) 2)"
      by (rule run_manifest_total)
    then show "manifest (snd (update_models_json script_dir w2)) ?m = manifest w1 ?m"
      unfolding a m1 by (rule disjE)
  qed
  have c: "\<forall>w3. update_models_json script_dir w2 = (Inr True, w3) \<longrightarrow>
      manifest w3 ?m = manifest w1 ?m"
  proof (intro allI impI)
    fix w3
    assume "update_models_json script_dir w2 = (Inr True, w3)"
    then have "manifest w3 ?m = Some (json_dump (csv_files w2 ?m) 2)" by (rule run_True_manifest)
    then show "manifest w3 ?m = manifest w1 ?m" unfolding a m1 .
  qed
  have e: "console_accepts w2 script_dir \<and> \<not> open_fault w2 \<and> write_fault w2 = None \<longrightarrow>
      fst (update_models_json script_dir w2) = Inr True"
  proof
    assume h: "console_accepts w2 script_dir \<and> \<not> open_fault w2 \<and> write_fault w2 = None"
    then have "can_write_manifest w2 ?m"
      unfolding can_write_manifest_def f2 node.case e2 by simp
    with h show "fst (update_models_json script_dir w2) = Inr True"
      by (intro run_success) simp_all
  qed
  have f: "\<forall>v v' dw dv.
          \<not> has_magic ?m
          \<and> filesystem w ?m = Directory dw \<and> readable dw \<and> wf_dir dw
          \<and> filesystem v ?m = Directory dv \<and> readable dv \<and> wf_dir dv
          \<and> {n \<in> set (map fst (entries dv)). endswith n (str ''.csv'')}
              = {n \<in> set (map fst (entries dw)). endswith n (str ''.csv'')}
          \<and> update_models_json script_dir v = (Inr True, v') \<longrightarrow>
            manifest v' ?m = manifest w1 ?m"
  proof (intro allI impI)
    fix v v' dw dv
    assume h: "\<not> has_magic ?m
          \<and> filesystem w ?m = Directory dw \<and> readable dw \<and> wf_dir dw
          \<and> filesystem v ?m = Directory dv \<and> readable dv \<and> wf_dir dv
          \<and> {n \<in> set (map fst (entries dv)). endswith n (str ''.csv'')}
              = {n \<in> set (map fst (entries dw)). endswith n (str ''.csv'')}
          \<and> update_models_json script_dir v = (Inr True, v')"
    then have nm: "\<not> has_magic ?m"
      and fw: "filesystem w ?m = Directory dw" and rw: "readable dw" and ww: "wf_dir dw"
      and fv: "filesystem v ?m = Directory dv" and rv: "readable dv" and wv: "wf_dir dv"
      and se: "{n \<in> set (map fst (entries dv)). endswith n (str ''.csv'')}
              = {n \<in> set (map fst (entries dw)). endswith n (str ''.csv'')}"
      and rn: "update_models_json script_dir v = (Inr True, v')"
      by blast+
    have "csv_files v ?m = csv_files w ?m"
      using nm fv rv wv fw rw ww se by (rule csv_files_same_names)
    then show "manifest v' ?m = manifest w1 ?m"
      unfolding m1 run_True_manifest [OF rn] by (simp only:)
  qed
  show ?thesis using a b c e f by (intro conjI)
qed

theorem rerun_identical_witness:
  "fst (update_models_json (str ''/app'') example_world) = Inr True
   \<and> fst (update_models_json (str ''/app'')
            (snd (update_models_json (str ''/app'') example_world))) = Inr True
   \<and> manifest (snd (update_models_json (str ''/app'')
                      (snd (update_models_json (str ''/app'') example_world))))
        (models_dir (str ''/app''))
       = manifest (snd (update_models_json (str ''/app'') example_world))
           (models_dir (str ''/app''))
   \<and> manifest (snd (update_models_json (str ''/app'') reordered_world))
        (models_dir (str ''/app''))
       = manifest (snd (update_models_json (str ''/app'') example_world))
           (models_dir (str ''/app''))
   \<and> manifest (snd (update_models_json (str ''/app'') example_world))
           (models_dir (str ''/app''))
       = Some (json_dump [str ''a.csv'', str ''b.csv'', str ''c.csv''] 2)"
proof -
  let ?sd = "str ''/app''"
  let ?files = "[(str ''a.csv'', [49]), (str ''c.csv'', []), (str ''b.csv'', [50, 10]),
      (str ''models.json'', str ''stale'')] :: (pystr \<times> bytes) list"
  let ?other = "[(str ''b.csv'', []), (str ''notes.txt'', [104, 105]), (str ''a.csv'', []),
      (str ''c.csv'', [51])] :: (pystr \<times> bytes) list"
  obtain w1 where r1: "update_models_json ?sd example_world = (Inr True, w1)"
    by (rule example_run_outcome)
  note t = rerun_identical [OF r1 refl refl]
  have L1: "csv_files w1 (models_dir ?sd) = [str ''a.csv'', str ''b.csv'', str ''c.csv'']"
    using t [THEN conjunct1] unfolding example_csv_files .
  obtain fs out where k: "snd (update_models_json ?sd example_world)
      = example_world\<lparr>filesystem := fs, stdout := out\<rparr>"
    using run_keeps by blast
  have w1: "w1 = example_world\<lparr>filesystem := fs, stdout := out\<rparr>" using k unfolding r1 snd_conv .
  have flt: "\<forall>n. \<not> stdout_fault w1 n" "\<not> open_fault w1" "write_fault w1 = None"
    "stdout_encoding w1 = UTF_8"
    unfolding w1 example_world_def by (simp_all add: plain_world_simps)
  have "\<forall>f \<in> set [str ''a.csv'', str ''b.csv'', str ''c.csv'']. encodable UTF_8 f"
    by (intro ballI encodable_ascii) auto
  moreover have "encodable UTF_8 ?sd" by (rule encodable_ascii) simp
  ultimately have ca: "console_accepts w1 ?sd"
    unfolding console_accepts_def L1 flt(4) using flt(1) by simp
  have second: "fst (update_models_json ?sd w1) = Inr True"
    using t [THEN conjunct2, THEN conjunct2, THEN conjunct2, THEN conjunct1] ca flt(2,3) by simp
  have same: "manifest (snd (update_models_json ?sd w1)) (models_dir ?sd)
      = manifest w1 (models_dir ?sd)"
    using t [THEN conjunct2, THEN conjunct1] flt(3) by simp
  have nm: "\<not> has_magic (models_dir ?sd)" unfolding models_dir_app by (rule app_models_plain)
  have fe: "filesystem example_world (models_dir ?sd) = Directory (plain_dir ?files)"
    unfolding models_dir_app example_world_def plain_world_simps only_at_simps ..
  have fo: "filesystem reordered_world (models_dir ?sd) = Directory (plain_dir ?other)"
    unfolding models_dir_app reordered_world_def plain_world_simps only_at_simps ..
  have we: "wf_dir (plain_dir ?files)" by (simp add: wf_dir_def plain_dir_def sep_def)
  have wo: "wf_dir (plain_dir ?other)" by (simp add: wf_dir_def plain_dir_def sep_def)
  have ce: "{n \<in> set (map fst (entries (plain_dir ?files))). endswith n (str ''.csv'')}
      = {str ''a.csv'', str ''b.csv'', str ''c.csv''}"
    by (auto simp: plain_dir_def endswith_def)
  have co: "{n \<in> set (map fst (entries (plain_dir ?other))). endswith n (str ''.csv'')}
      = {str ''a.csv'', str ''b.csv'', str ''c.csv''}"
    by (auto simp: plain_dir_def endswith_def)
  have "fst (update_models_json ?sd reordered_world) = Inr True"
    unfolding reordered_world_def by (rule plain_run) (simp_all add: sep_def)
  then obtain v' where rv: "update_models_json ?sd reordered_world = (Inr True, v')"
    by (cases "update_models_json ?sd reordered_world") auto
  have "manifest v' (models_dir ?sd) = manifest w1 (models_dir ?sd)"
    using t [THEN conjunct2, THEN conjunct2, THEN conjunct2, THEN conjunct2, rule_format,
        of "plain_dir ?files" reordered_world "plain_dir ?other" v']
      nm fe we fo wo rv plain_dir_flags(1) unfolding ce co by simp
  then have other: "manifest (snd (update_models_json ?sd reordered_world)) (models_dir ?sd)
      = manifest w1 (models_dir ?sd)"
    unfolding rv snd_conv .
  have m1: "manifest w1 (models_dir ?sd)
      = Some (json_dump [str ''a.csv'', str ''b.csv'', str ''c.csv''] 2)"
    using run_True_manifest [OF r1] unfolding example_csv_files .
  show ?thesis
    unfolding r1 snd_conv fst_conv using second same other m1 by (intro conjI refl)
qed

end
